theory Spec2Isabelle
  imports Complex_Main "HOL-Library.Multiset"
begin

section \<open>The HTTP client: error classes and the retry loop (src/lib/api/client.ts)\<close>

text \<open>
  An axios failure either carries a response (with its HTTP status) or not (timeout,
  connection failure). \<open>transformError\<close> turns the first kind into an \<open>ApiError\<close>, which
  has a \<open>status\<close> field, and the second into a \<open>NetworkError\<close>, which has the flag
  \<open>isNetworkError = true\<close> and no \<open>status\<close>. Messages and details play no part in the
  control flow and are left out.
\<close>

record axios_error =
  code :: "string option"
  response :: "int option"

datatype api_failure = ApiError (status: int) | NetworkError

definition transformError :: "axios_error \<Rightarrow> api_failure" where
  "transformError error =
     (case response error of None \<Rightarrow> NetworkError | Some st \<Rightarrow> ApiError st)"

text \<open>\<open>isApiError\<close> (types.ts): an object that has both \<open>message\<close> and \<open>status\<close>.\<close>

fun isApiError :: "api_failure \<Rightarrow> bool" where
  "isApiError (ApiError st) = True"
| "isApiError NetworkError = False"

definition retryableStatuses :: "int list" where
  "retryableStatuses = [408, 429, 500, 502, 503, 504]"

text \<open>
  \<open>ApiClient.shouldRetry(error, attempt)\<close>, with \<open>config.api.retries\<close> as a parameter: an
  integer, \<open>parseInt\<close> of the setting \<open>API_RETRIES\<close>, 3 by default.
\<close>

definition shouldRetry :: "int \<Rightarrow> api_failure \<Rightarrow> int \<Rightarrow> bool" where
  "shouldRetry retries error attempt =
     (if attempt \<ge> retries then False
      else if isApiError error then status error \<in> set retryableStatuses
      else True)"

text \<open>The exported \<open>isRetryableError\<close>: the same classification without the attempt count.\<close>

definition isRetryableError :: "api_failure \<Rightarrow> bool" where
  "isRetryableError error =
     (if isApiError error then status error \<in> set retryableStatuses else True)"

text \<open>
  \<open>calculateRetryDelay(attempt)\<close>: exponential backoff with jitter, capped at 30 s. The
  source computes in floating point; the model computes in the rationals, with the value
  of \<open>Math.random()\<close> passed in.
\<close>

definition calculateRetryDelay :: "rat \<Rightarrow> rat \<Rightarrow> int \<Rightarrow> rat" where
  "calculateRetryDelay baseDelay random attempt =
     (let exponentialDelay = baseDelay * (2 powi (attempt - 1));
          jitter = random * (1 / 10) * exponentialDelay
      in min (exponentialDelay + jitter) 30000)"

text \<open>
  What \<open>request\<close> does is observed through its result (a response, or the value thrown;
  \<open>None\<close> is the \<open>undefined\<close> that \<open>throw lastError!\<close> throws when no attempt was made),
  the number of calls of \<open>axiosInstance.request\<close>, and the delays it slept.
\<close>

datatype 'r outcome = Returned 'r | Thrown "api_failure option"

record 'r request_result =
  outcome :: "'r outcome"
  sends :: nat
  sleeps :: "rat list"

text \<open>
  The \<open>while\<close> loop of \<open>request\<close>, entered with \<open>attempt\<close> failed sends behind it. The
  environment is \<open>send\<close>: the result of the \<open>i\<close>-th call of \<open>axiosInstance.request\<close>
  (counted from 0), after the response interceptor transformed a failure; \<open>random i\<close> is
  the \<open>i\<close>-th value of \<open>Math.random()\<close>. Every send is bounded by the axios timeout, so
  it has a result.
\<close>

function request_loop ::
  "int \<Rightarrow> rat \<Rightarrow> (nat \<Rightarrow> rat) \<Rightarrow> (nat \<Rightarrow> api_failure + 'r) \<Rightarrow>
     nat \<Rightarrow> api_failure option \<Rightarrow> rat list \<Rightarrow> 'r request_result" where
  "request_loop retries retryDelay random send attempt lastError slept =
     (if int attempt < retries + 1 then
        (case send attempt of
           Inr resp \<Rightarrow> \<lparr>outcome = Returned resp, sends = attempt + 1, sleeps = slept\<rparr>
         | Inl error \<Rightarrow>
             (if \<not> shouldRetry retries error (int attempt + 1) then
                \<lparr>outcome = Thrown (Some error), sends = attempt + 1, sleeps = slept\<rparr>
              else if int attempt + 1 \<le> retries then
                request_loop retries retryDelay random send (attempt + 1) (Some error)
                  (slept @ [calculateRetryDelay retryDelay (random attempt) (int attempt + 1)])
              else
                request_loop retries retryDelay random send (attempt + 1) (Some error) slept))
      else \<lparr>outcome = Thrown lastError, sends = attempt, sleeps = slept\<rparr>)"
  by pat_completeness auto
termination
  by (relation "measure (\<lambda>(retries, retryDelay, random, send, attempt, lastError, slept).
        nat (retries + 1 - int attempt))") auto

definition request ::
  "int \<Rightarrow> rat \<Rightarrow> (nat \<Rightarrow> rat) \<Rightarrow> (nat \<Rightarrow> api_failure + 'r) \<Rightarrow> 'r request_result" where
  "request retries retryDelay random send =
     request_loop retries retryDelay random send 0 None []"


section \<open>JavaScript values (what the runtime validators of types.ts inspect)\<close>

text \<open>
  A JavaScript number is a double; the model keeps the finite ones as rationals and the
  three special values apart. A JavaScript string is its sequence of UTF-16 code units.
  Property names are written as Isabelle strings: the validators only read fixed ASCII
  names, none of which is an array index or \<open>length\<close>. An object lists its own
  properties, one entry per name.
\<close>

datatype js_number = Finite rat | NaN | PosInfinity | NegInfinity

type_synonym js_string = "nat list"

definition utf16 :: "string \<Rightarrow> js_string" where
  "utf16 s = map of_char s"

datatype jsval =
    JUndefined
  | JNull
  | JBool bool
  | JNum js_number
  | JStr js_string
  | JArr "jsval list"
  | JObj "(string \<times> jsval) list"

text \<open>\<open>!v\<close> is \<open>\<not> truthy v\<close>.\<close>

fun truthy :: "jsval \<Rightarrow> bool" where
  "truthy JUndefined = False"
| "truthy JNull = False"
| "truthy (JBool b) = b"
| "truthy (JNum n) = (n \<noteq> Finite 0 \<and> n \<noteq> NaN)"
| "truthy (JStr s) = (s \<noteq> [])"
| "truthy (JArr xs) = True"
| "truthy (JObj fs) = True"

fun typeof :: "jsval \<Rightarrow> string" where
  "typeof JUndefined = ''undefined''"
| "typeof JNull = ''object''"
| "typeof (JBool b) = ''boolean''"
| "typeof (JNum n) = ''number''"
| "typeof (JStr s) = ''string''"
| "typeof (JArr xs) = ''object''"
| "typeof (JObj fs) = ''object''"

fun isArray :: "jsval \<Rightarrow> bool" where
  "isArray (JArr xs) = True"
| "isArray v = False"

text \<open>\<open>v.k\<close> for a value cast to \<open>Record<string, unknown>\<close>, and \<open>'k' in v\<close>.\<close>

fun get_prop :: "jsval \<Rightarrow> string \<Rightarrow> jsval" where
  "get_prop (JObj fs) k = (case map_of fs k of Some v \<Rightarrow> v | None \<Rightarrow> JUndefined)"
| "get_prop v k = JUndefined"

fun has_prop :: "string \<Rightarrow> jsval \<Rightarrow> bool" where
  "has_prop k (JObj fs) = (k \<in> fst ` set fs)"
| "has_prop k v = False"

text \<open>
  \<open>String.prototype.trim\<close> strips the ECMAScript WhiteSpace and LineTerminator code
  points from both ends: TAB, LF, VT, FF, CR, SP, NBSP, U+1680, U+2000..U+200A, U+2028,
  U+2029, U+202F, U+205F, U+3000 and U+FEFF.
\<close>

definition isWhiteSpace :: "nat \<Rightarrow> bool" where
  "isWhiteSpace c \<longleftrightarrow>
     c \<in> {9, 10, 11, 12, 13, 32, 160, 5760, 8232, 8233, 8239, 8287, 12288, 65279}
     \<or> (8192 \<le> c \<and> c \<le> 8202)"

definition trim :: "js_string \<Rightarrow> js_string" where
  "trim s = rev (dropWhile isWhiteSpace (rev (dropWhile isWhiteSpace s)))"

text \<open>\<open>Number.isInteger\<close>, and \<open>x < y\<close> on numbers (false as soon as one side is NaN).\<close>

fun isInteger :: "js_number \<Rightarrow> bool" where
  "isInteger (Finite r) = (of_int (floor r) = r)"
| "isInteger n = False"

fun js_less :: "js_number \<Rightarrow> js_number \<Rightarrow> bool" where
  "js_less NaN y = False"
| "js_less x NaN = False"
| "js_less (Finite a) (Finite b) = (a < b)"
| "js_less (Finite a) PosInfinity = True"
| "js_less (Finite a) NegInfinity = False"
| "js_less PosInfinity y = False"
| "js_less NegInfinity NegInfinity = False"
| "js_less NegInfinity y = True"

section \<open>The API types and their validators (types.ts)\<close>

text \<open>
  The interfaces \<open>Author\<close>, \<open>Paper\<close>, \<open>FeaturedPaperEntry\<close>, \<open>PaginationMeta\<close> and
  \<open>HistoryResponse\<close>. A citation count is a whole number (the \<open>citation_count INTEGER\<close>
  column of the \<open>papers\<close> table), so the field is an \<open>int\<close>; the field \<open>id\<close> is named
  \<open>paperId\<close> here.
\<close>

record author =
  name :: js_string

record paper =
  paperId :: js_string
  arxivId :: js_string
  title :: js_string
  abstract :: js_string
  authors :: "author list"
  categories :: "js_string list"
  primaryCategory :: js_string
  submittedDate :: js_string
  citationCount :: int
  pdfUrl :: js_string
  abstractUrl :: js_string

record featured_paper_entry =
  entry_paper :: paper
  featuredDate :: js_string
  entry_category :: "js_string option"

record pagination_meta =
  page :: js_number
  limit :: js_number
  total :: js_number
  hasNext :: bool

record history_response =
  papers :: "featured_paper_entry list"
  pagination :: pagination_meta

definition DEFAULT_PAGE_SIZE :: js_number where
  "DEFAULT_PAGE_SIZE = Finite 20"

definition MAX_PAGE_SIZE :: js_number where
  "MAX_PAGE_SIZE = Finite 100"

definition validatePaper :: "jsval \<Rightarrow> bool" where
  "validatePaper paper =
     (if \<not> truthy paper \<or> typeof paper \<noteq> ''object'' \<or> paper = JNull then False
      else
        typeof (get_prop paper ''id'') = ''string'' \<and>
        typeof (get_prop paper ''arxivId'') = ''string'' \<and>
        typeof (get_prop paper ''title'') = ''string'' \<and>
        typeof (get_prop paper ''abstract'') = ''string'' \<and>
        isArray (get_prop paper ''authors'') \<and>
        isArray (get_prop paper ''categories'') \<and>
        typeof (get_prop paper ''primaryCategory'') = ''string'' \<and>
        typeof (get_prop paper ''submittedDate'') = ''string'' \<and>
        typeof (get_prop paper ''citationCount'') = ''number'' \<and>
        typeof (get_prop paper ''pdfUrl'') = ''string'' \<and>
        typeof (get_prop paper ''abstractUrl'') = ''string'')"

definition validateTodayPaperResponse :: "jsval \<Rightarrow> bool" where
  "validateTodayPaperResponse r =
     (if \<not> truthy r \<or> typeof r \<noteq> ''object'' \<or> r = JNull then False
      else validatePaper (get_prop r ''paper'') \<and>
           typeof (get_prop r ''featuredDate'') = ''string'')"

text \<open>The callback that \<open>validateHistoryResponse\<close> passes to \<open>r.papers.every\<close>.\<close>

definition validateEntry :: "jsval \<Rightarrow> bool" where
  "validateEntry entry =
     (if \<not> truthy entry \<or> typeof entry \<noteq> ''object'' \<or> entry = JNull then False
      else validatePaper (get_prop entry ''paper'') \<and>
           typeof (get_prop entry ''featuredDate'') = ''string'')"

definition validateHistoryResponse :: "jsval \<Rightarrow> bool" where
  "validateHistoryResponse r =
     (if \<not> truthy r \<or> typeof r \<noteq> ''object'' \<or> r = JNull then False
      else if \<not> has_prop ''papers'' r \<or> \<not> isArray (get_prop r ''papers'') then False
      else
        (let papersValid =
               (case get_prop r ''papers'' of JArr es \<Rightarrow> list_all validateEntry es
                | _ \<Rightarrow> False)
         in if \<not> papersValid \<or> \<not> has_prop ''pagination'' r
                \<or> \<not> truthy (get_prop r ''pagination'')
                \<or> typeof (get_prop r ''pagination'') \<noteq> ''object'' then False
            else
              typeof (get_prop (get_prop r ''pagination'') ''page'') = ''number'' \<and>
              typeof (get_prop (get_prop r ''pagination'') ''limit'') = ''number'' \<and>
              typeof (get_prop (get_prop r ''pagination'') ''total'') = ''number'' \<and>
              typeof (get_prop (get_prop r ''pagination'') ''hasNext'') = ''boolean''))"

text \<open>
  The JSON a backend sends for a value of each interface: every declared field under its
  name, an optional field only when it is set.
\<close>

definition json_of_author :: "author \<Rightarrow> jsval" where
  "json_of_author a = JObj [(''name'', JStr (name a))]"

definition json_of_paper :: "paper \<Rightarrow> jsval" where
  "json_of_paper p = JObj
     [(''id'', JStr (paperId p)),
      (''arxivId'', JStr (arxivId p)),
      (''title'', JStr (title p)),
      (''abstract'', JStr (abstract p)),
      (''authors'', JArr (map json_of_author (authors p))),
      (''categories'', JArr (map JStr (categories p))),
      (''primaryCategory'', JStr (primaryCategory p)),
      (''submittedDate'', JStr (submittedDate p)),
      (''citationCount'', JNum (Finite (of_int (citationCount p)))),
      (''pdfUrl'', JStr (pdfUrl p)),
      (''abstractUrl'', JStr (abstractUrl p))]"

definition json_of_entry :: "featured_paper_entry \<Rightarrow> jsval" where
  "json_of_entry e = JObj
     ([(''paper'', json_of_paper (entry_paper e)),
       (''featuredDate'', JStr (featuredDate e))]
      @ (case entry_category e of None \<Rightarrow> [] | Some c \<Rightarrow> [(''category'', JStr c)]))"

definition json_of_pagination :: "pagination_meta \<Rightarrow> jsval" where
  "json_of_pagination m = JObj
     [(''page'', JNum (page m)),
      (''limit'', JNum (limit m)),
      (''total'', JNum (total m)),
      (''hasNext'', JBool (hasNext m))]"

definition json_of_history :: "history_response \<Rightarrow> jsval" where
  "json_of_history r = JObj
     [(''papers'', JArr (map json_of_entry (papers r))),
      (''pagination'', json_of_pagination (pagination r))]"

text \<open>
  The history body of the documented Read API (project_info.md, 5.1): the same entries,
  and a pagination object with \<open>page\<close>, \<open>limit\<close> and \<open>total\<close> only.
\<close>

definition json_of_documented_history ::
  "featured_paper_entry list \<Rightarrow> js_number \<Rightarrow> js_number \<Rightarrow> js_number \<Rightarrow> jsval" where
  "json_of_documented_history es pg lm tot = JObj
     [(''papers'', JArr (map json_of_entry es)),
      (''pagination'', JObj [(''page'', JNum pg), (''limit'', JNum lm), (''total'', JNum tot)])]"

section \<open>Query functions (queries.ts)\<close>

text \<open>
  \<open>HistoryQueryParams\<close> has three optional fields; \<open>None\<close> is an omitted one. What
  \<open>historyQuery\<close> hands to \<open>apiClient.get\<close> is the object \<open>queryParams\<close>. A query throws a
  \<open>ValidationError\<close> (message and field) or whatever the client throws.
\<close>

record history_query_params =
  page_opt :: "js_number option"
  limit_opt :: "js_number option"
  category_opt :: "js_string option"

record query_params =
  qp_page :: js_number
  qp_limit :: js_number
  qp_category :: "js_string option"

datatype query_error =
    ValidationError string "string option"
  | RequestError "api_failure option"

text \<open>
  \<open>validateHistoryParams\<close>: the three checks in the source's order, the first failing one
  throws. The category is typed as a string, so \<open>typeof params.category !== 'string'\<close> is
  never true.
\<close>

definition validateHistoryParams ::
  "history_query_params option \<Rightarrow> query_error + history_query_params" where
  "validateHistoryParams params =
     (case params of
        None \<Rightarrow> Inr \<lparr>page_opt = None, limit_opt = None, category_opt = None\<rparr>
      | Some ps \<Rightarrow>
          if (case page_opt ps of None \<Rightarrow> False
              | Some pg \<Rightarrow> \<not> isInteger pg \<or> js_less pg (Finite 1))
          then Inl (ValidationError ''Page must be a positive integer'' (Some ''page''))
          else if (case limit_opt ps of None \<Rightarrow> False
              | Some lm \<Rightarrow> \<not> isInteger lm \<or> js_less lm (Finite 1) \<or> js_less MAX_PAGE_SIZE lm)
          then Inl (ValidationError ''Limit must be between 1 and 100'' (Some ''limit''))
          else if (case category_opt ps of None \<Rightarrow> False
              | Some c \<Rightarrow> length (trim c) = 0)
          then Inl (ValidationError ''Category must be a non-empty string'' (Some ''category''))
          else Inr \<lparr>page_opt = page_opt ps, limit_opt = limit_opt ps,
                    category_opt = map_option trim (category_opt ps)\<rparr>)"

text \<open>
  One run of \<open>historyQuery\<close>: its result, the argument of \<open>apiClient.get\<close> if the call
  was made, and the number of HTTP sends. \<open>apiClient.get\<close> is \<open>request\<close> with method GET;
  \<open>server q i\<close> is the result of the \<open>i\<close>-th send of a request carrying \<open>q\<close> (the
  \<open>data\<close> of the response, or the transformed failure).
\<close>

record history_run =
  result :: "query_error + jsval"
  requested :: "query_params option"
  http_sends :: nat

definition historyQuery ::
  "int \<Rightarrow> rat \<Rightarrow> (nat \<Rightarrow> rat) \<Rightarrow> (query_params \<Rightarrow> nat \<Rightarrow> api_failure + jsval) \<Rightarrow>
     history_query_params option \<Rightarrow> history_run" where
  "historyQuery retries retryDelay random server params =
     (case validateHistoryParams params of
        Inl err \<Rightarrow> \<lparr>result = Inl err, requested = None, http_sends = 0\<rparr>
      | Inr validatedParams \<Rightarrow>
          (let queryParams =
                 \<lparr>qp_page = (case page_opt validatedParams of
                               Some pg \<Rightarrow> if truthy (JNum pg) then pg else Finite 1
                             | None \<Rightarrow> Finite 1),
                  qp_limit = (case limit_opt validatedParams of
                               Some lm \<Rightarrow> if truthy (JNum lm) then lm else DEFAULT_PAGE_SIZE
                             | None \<Rightarrow> DEFAULT_PAGE_SIZE),
                  qp_category = (case category_opt validatedParams of
                               Some c \<Rightarrow> if truthy (JStr c) then Some c else None
                             | None \<Rightarrow> None)\<rparr>;
               r = request retries retryDelay random (server queryParams)
           in case outcome r of
                Thrown e \<Rightarrow>
                  \<lparr>result = Inl (RequestError e), requested = Some queryParams,
                   http_sends = sends r\<rparr>
              | Returned data \<Rightarrow>
                  if \<not> validateHistoryResponse data then
                    \<lparr>result = Inl (ValidationError ''Invalid history response format'' None),
                     requested = Some queryParams, http_sends = sends r\<rparr>
                  else
                    \<lparr>result = Inr data, requested = Some queryParams,
                     http_sends = sends r\<rparr>))"

text \<open>
  The parameters claim C10 calls invalid, in the claim's words: a page that is provided
  and is not an integer \<open>\<ge> 1\<close>, a limit that is provided and is not an integer between 1
  and 100, or a category that is provided and is empty or made of white space only.
\<close>

definition claimed_invalid_params :: "history_query_params \<Rightarrow> bool" where
  "claimed_invalid_params ps \<longleftrightarrow>
     (\<exists>pg. page_opt ps = Some pg \<and> \<not> (\<exists>k::int. 1 \<le> k \<and> pg = Finite (of_int k)))
   \<or> (\<exists>lm. limit_opt ps = Some lm \<and> \<not> (\<exists>k::int. 1 \<le> k \<and> k \<le> 100 \<and> lm = Finite (of_int k)))
   \<or> (\<exists>c. category_opt ps = Some c \<and> (\<forall>u \<in> set c. isWhiteSpace u))"

section \<open>The paper repository (spec 4.4, over the \<open>papers\<close> table of project_info.md 4.1)\<close>

text \<open>
  Modelled from the spec: the create and upsert operations of the Paper Repository. The
  repository's code (the Python backend) is not among the sources; the table it writes
  is: \<open>arxiv_id\<close> is unique, and \<open>citation_count INTEGER DEFAULT 0\<close> carries no
  constraint on its sign. A create stores the paper under its identifier with the count
  it is given, 0 when none is given. An upsert creates the paper when the identifier is
  absent and otherwise updates the stored count, keeping the prior one when none is
  given. The last-updated date is not a field of \<open>Paper\<close> and is left out.
\<close>

type_synonym repository = "js_string \<rightharpoonup> paper"

definition create_paper :: "repository \<Rightarrow> paper \<Rightarrow> int option \<Rightarrow> repository" where
  "create_paper repo p cites =
     repo(arxivId p \<mapsto> p\<lparr>citationCount := (case cites of None \<Rightarrow> 0 | Some n \<Rightarrow> n)\<rparr>)"

definition upsert :: "repository \<Rightarrow> paper \<Rightarrow> int option \<Rightarrow> repository" where
  "upsert repo p cites =
     (case repo (arxivId p) of
        None \<Rightarrow> create_paper repo p cites
      | Some stored \<Rightarrow>
          repo(arxivId p \<mapsto> stored\<lparr>citationCount :=
                 (case cites of None \<Rightarrow> citationCount stored | Some n \<Rightarrow> n)\<rparr>))"

section \<open>The historical window (spec 4.2)\<close>

text \<open>
  Modelled from the spec: \<open>windowDates(targetDate, yearsBack)\<close>. The function that
  computes the window (\<open>getLast10YearsDateRanges\<close> of project_info.md,
  \<open>get_last_10_years_dates\<close> of the Python service) is only called or described in the
  sources. For target month and day (M, D) and target year Y it lists (Y-1, M, D),
  (Y-2, M, D), ..., (Y-yearsBack, M, D), and puts February 28 in place of February 29
  in a candidate year that is not a leap year.
\<close>

record date =
  year :: int
  month :: nat
  day :: nat

definition is_leap_year :: "int \<Rightarrow> bool" where
  "is_leap_year y \<longleftrightarrow> (y mod 4 = 0 \<and> y mod 100 \<noteq> 0) \<or> y mod 400 = 0"

definition days_in_month :: "int \<Rightarrow> nat \<Rightarrow> nat" where
  "days_in_month y m =
     (if m = 2 then (if is_leap_year y then 29 else 28)
      else if m \<in> {4, 6, 9, 11} then 30 else 31)"

definition valid_date :: "date \<Rightarrow> bool" where
  "valid_date d \<longleftrightarrow>
     1 \<le> month d \<and> month d \<le> 12 \<and> 1 \<le> day d \<and> day d \<le> days_in_month (year d) (month d)"

definition candidate_date :: "date \<Rightarrow> int \<Rightarrow> date" where
  "candidate_date target y =
     (if month target = 2 \<and> day target = 29 \<and> \<not> is_leap_year y
      then \<lparr>year = y, month = 2, day = 28\<rparr>
      else \<lparr>year = y, month = month target, day = day target\<rparr>)"

definition windowDates :: "date \<Rightarrow> nat \<Rightarrow> date list" where
  "windowDates target yearsBack =
     map (\<lambda>k. candidate_date target (year target - int k)) [1..<yearsBack + 1]"

definition getLast10YearsDateRanges :: "date \<Rightarrow> date list" where
  "getLast10YearsDateRanges d = windowDates d 10"

section \<open>The daily selection (project_info.md 7.1, \<open>selectDailyPaper\<close>)\<close>

text \<open>
  \<open>Array.prototype.sort\<close> with a comparator is a stable sort: \<open>x\<close> stays before a later
  \<open>y\<close> unless the comparator puts \<open>y\<close> first (\<open>cmp x y > 0\<close>). Reading an array at an index
  outside it gives \<open>undefined\<close>.
\<close>

fun insert_by :: "('a \<Rightarrow> 'a \<Rightarrow> int) \<Rightarrow> 'a \<Rightarrow> 'a list \<Rightarrow> 'a list" where
  "insert_by cmp x [] = [x]"
| "insert_by cmp x (y # ys) =
     (if cmp x y \<le> 0 then x # y # ys else y # insert_by cmp x ys)"

definition array_sort :: "('a \<Rightarrow> 'a \<Rightarrow> int) \<Rightarrow> 'a list \<Rightarrow> 'a list" where
  "array_sort cmp xs = foldr (insert_by cmp) xs []"

datatype 'a js_value = Undefined | Defined 'a

definition array_get :: "'a list \<Rightarrow> int \<Rightarrow> 'a js_value" where
  "array_get xs i = (if 0 \<le> i \<and> i < int (length xs) then Defined (xs ! nat i) else Undefined)"

text \<open>The comparator \<open>(a, b) => b.citationCount - a.citationCount\<close> and step 5 of the
  algorithm, \<open>enrichedPapers.sort(...).slice(0, 10)\<close>.\<close>

definition byCitationsDesc :: "paper \<Rightarrow> paper \<Rightarrow> int" where
  "byCitationsDesc a b = citationCount b - citationCount a"

definition topPapers :: "paper list \<Rightarrow> paper list" where
  "topPapers enrichedPapers = take 10 (array_sort byCitationsDesc enrichedPapers)"

text \<open>
  A row of \<open>daily_featured_papers\<close>, and what is kept for one (feature date, category)
  key: the ranked shortlist and the chosen paper. The state of the engine is the store
  and two counters: the calls of the provider fetch and the calls of the persistence
  write.
\<close>

record featured_selection =
  feature_date :: date
  fs_category :: "js_string option"
  fs_paper :: paper
  rank_in_day :: nat

record daily_selection =
  shortlist :: "featured_selection list"
  chosen :: paper

record engine_state =
  store :: "date \<times> js_string option \<rightharpoonup> daily_selection"
  fetches :: nat
  writes :: nat

definition shortlist_of :: "engine_state \<Rightarrow> date \<Rightarrow> js_string option \<Rightarrow> featured_selection list" where
  "shortlist_of s d category =
     (case store s (d, category) of None \<Rightarrow> [] | Some sel \<Rightarrow> shortlist sel)"

text \<open>
  Modelled from the spec: \<open>getCachedPaper\<close> and \<open>cacheDailySelection\<close>, which
  project_info.md only declares and calls. \<open>getCachedPaper\<close> returns the chosen paper
  stored for the key, or null. \<open>cacheDailySelection\<close> writes one row per top paper, with
  ranks 1, 2, ... in order, and records the chosen paper; with no top paper there is no
  row and no choice to record, and the store is left as it is.
\<close>

definition getCachedPaper :: "engine_state \<Rightarrow> date \<Rightarrow> js_string option \<Rightarrow> paper option" where
  "getCachedPaper s d category = map_option chosen (store s (d, category))"

definition ranked_rows :: "date \<Rightarrow> js_string option \<Rightarrow> paper list \<Rightarrow> featured_selection list" where
  "ranked_rows d category top10 =
     map (\<lambda>(i, p). \<lparr>feature_date = d, fs_category = category, fs_paper = p, rank_in_day = i\<rparr>)
       (enumerate 1 top10)"

definition cacheDailySelection ::
  "date \<Rightarrow> js_string option \<Rightarrow> paper list \<Rightarrow> paper js_value \<Rightarrow> engine_state \<Rightarrow> engine_state" where
  "cacheDailySelection d category top10 selectedPaper s =
     (case selectedPaper of
        Undefined \<Rightarrow> s\<lparr>writes := writes s + 1\<rparr>
      | Defined p \<Rightarrow>
          s\<lparr>store := (store s)((d, category) \<mapsto>
                \<lparr>shortlist = ranked_rows d category top10, chosen = p\<rparr>),
            writes := writes s + 1\<rparr>)"

text \<open>
  The providers are the environment: \<open>fetchPapersFromDateRanges\<close> and
  \<open>enrichWithCitations\<close> return papers or fail, and \<open>math_random\<close> is the value
  \<open>Math.random()\<close> draws (a rational here, in \<open>[0, 1)\<close> for a real draw).
\<close>

datatype provider_error = ProviderError string

record environment =
  fetchPapersFromDateRanges :: "date list \<Rightarrow> js_string option \<Rightarrow> provider_error + paper list"
  enrichWithCitations :: "paper list \<Rightarrow> provider_error + paper list"
  math_random :: rat

text \<open>
  \<open>selectDailyPaper(date, category)\<close>: the promise resolves with a value (a paper, or
  \<open>undefined\<close>) or rejects with the error of a provider.
\<close>

definition selectDailyPaper ::
  "environment \<Rightarrow> date \<Rightarrow> js_string option \<Rightarrow> engine_state \<Rightarrow>
     (provider_error + paper js_value) \<times> engine_state" where
  "selectDailyPaper env d category s =
     (case getCachedPaper s d category of
        Some cached \<Rightarrow> (Inr (Defined cached), s)
      | None \<Rightarrow>
          (let dateRanges = getLast10YearsDateRanges d;
               s1 = s\<lparr>fetches := fetches s + 1\<rparr>
           in case fetchPapersFromDateRanges env dateRanges category of
                Inl err \<Rightarrow> (Inl err, s1)
              | Inr fetched \<Rightarrow>
                  (case enrichWithCitations env fetched of
                     Inl err \<Rightarrow> (Inl err, s1)
                   | Inr enrichedPapers \<Rightarrow>
                       (let top10 = topPapers enrichedPapers;
                            selectedPaper =
                              array_get top10 \<lfloor>math_random env * of_nat (length top10)\<rfloor>;
                            s2 = cacheDailySelection d category top10 selectedPaper s1
                        in (Inr selectedPaper, s2)))))"

section \<open>Scenarios: concrete servers, parameters, papers and environments\<close>

text \<open>A server that answers every send with the same failure, and a jitter source that
  always draws 0.\<close>

definition always_fail :: "api_failure \<Rightarrow> nat \<Rightarrow> api_failure + unit" where
  "always_fail e i = Inl e"

definition no_jitter :: "nat \<Rightarrow> rat" where
  "no_jitter i = 0"

text \<open>A server that answers every send of every query with the same body.\<close>

definition respond_with :: "jsval \<Rightarrow> query_params \<Rightarrow> nat \<Rightarrow> api_failure + jsval" where
  "respond_with body q i = Inr body"

text \<open>Two parameter sets: a page of 0, and a limit of 50 with a category.\<close>

definition bad_page_params :: history_query_params where
  "bad_page_params = \<lparr>page_opt = Some (Finite 0), limit_opt = None, category_opt = None\<rparr>"

definition good_params :: history_query_params where
  "good_params = \<lparr>page_opt = None, limit_opt = Some (Finite 50),
     category_opt = Some (utf16 ''cs.AI'')\<rparr>"

text \<open>The mock data of test-mock.ts (abstract and author list shortened).\<close>

definition mockPaper :: paper where
  "mockPaper = \<lparr>
     paperId = utf16 ''mock-1'',
     arxivId = utf16 ''1706.03762'',
     title = utf16 ''Attention Is All You Need'',
     abstract = utf16 ''The dominant sequence transduction models'',
     authors = [\<lparr>name = utf16 ''Ashish Vaswani''\<rparr>, \<lparr>name = utf16 ''Noam Shazeer''\<rparr>],
     categories = [utf16 ''cs.CL'', utf16 ''cs.AI'', utf16 ''cs.LG''],
     primaryCategory = utf16 ''cs.CL'',
     submittedDate = utf16 ''2017-06-12'',
     citationCount = 45678,
     pdfUrl = utf16 ''https://arxiv.org/pdf/1706.03762.pdf'',
     abstractUrl = utf16 ''https://arxiv.org/abs/1706.03762''\<rparr>"

definition mockHistoryEntry :: featured_paper_entry where
  "mockHistoryEntry = \<lparr>entry_paper = mockPaper, featuredDate = utf16 ''2024-01-15'',
     entry_category = Some (utf16 ''cs.AI'')\<rparr>"

definition mockHistoryResponse :: history_response where
  "mockHistoryResponse = \<lparr>papers = [mockHistoryEntry],
     pagination = \<lparr>page = Finite 1, limit = Finite 20, total = Finite 100, hasNext = True\<rparr>\<rparr>"

text \<open>Papers that differ from the mock paper in identifier and citation count; two of
  them tie.\<close>

definition paper_with :: "string \<Rightarrow> int \<Rightarrow> paper" where
  "paper_with ident cites =
     mockPaper\<lparr>paperId := utf16 ident, arxivId := utf16 ident, citationCount := cites\<rparr>"

definition paperA :: paper where
  "paperA = paper_with ''2401.00001'' 7"

definition paperB :: paper where
  "paperB = paper_with ''2401.00002'' 7"

definition paperC :: paper where
  "paperC = paper_with ''2401.00003'' 9"

text \<open>Two feature dates, the state before any run, and three provider environments: one
  that finds two papers, one that finds none, one whose providers fail.\<close>

definition leap_day_2024 :: date where
  "leap_day_2024 = \<lparr>year = 2024, month = 2, day = 29\<rparr>"

definition june_12_2024 :: date where
  "june_12_2024 = \<lparr>year = 2024, month = 6, day = 12\<rparr>"

definition empty_state :: engine_state where
  "empty_state = \<lparr>store = Map.empty, fetches = 0, writes = 0\<rparr>"

definition two_papers_env :: environment where
  "two_papers_env = \<lparr>fetchPapersFromDateRanges = (\<lambda>dates category. Inr [paperA, paperC]),
     enrichWithCitations = (\<lambda>ps. Inr ps), math_random = 1 / 2\<rparr>"

definition no_papers_env :: environment where
  "no_papers_env = \<lparr>fetchPapersFromDateRanges = (\<lambda>dates category. Inr []),
     enrichWithCitations = (\<lambda>ps. Inr ps), math_random = 1 / 2\<rparr>"

definition failing_env :: environment where
  "failing_env = \<lparr>fetchPapersFromDateRanges = (\<lambda>dates category. Inl (ProviderError ''down'')),
     enrichWithCitations = (\<lambda>ps. Inl (ProviderError ''down'')), math_random = 0\<rparr>"


section \<open>Properties of the retry loop\<close>

declare request_loop.simps [simp del]

lemma calculateRetryDelay_cap: "calculateRetryDelay b r a \<le> 30000"
  by (simp add: calculateRetryDelay_def Let_def)

lemma request_loop_sends_upper:
  "sends (request_loop retries b rnd send n le sl) \<le> max n (nat (retries + 1))"
proof (induction retries b rnd send n le sl rule: request_loop.induct)
  case (1 retries b rnd send n le sl)
  show ?case
  proof (cases "int n < retries + 1")
    case False
    then show ?thesis by (subst request_loop.simps) simp
  next
    case True
    show ?thesis
    proof (cases "send n")
      case (Inr resp)
      with True show ?thesis by (subst request_loop.simps) auto
    next
      case (Inl e)
      show ?thesis
      proof (cases "shouldRetry retries e (int n + 1)")
        case False
        with True Inl show ?thesis by (subst request_loop.simps) auto
      next
        case sr: True
        then have lt: "int n + 1 < retries" by (auto simp: shouldRetry_def split: if_splits)
        from "1.IH"(1)[OF True Inl _ ] sr lt True Inl
        show ?thesis by (subst request_loop.simps) (auto simp: max_def split: if_splits)
      qed
    qed
  qed
qed

lemma request_loop_sends_lower:
  "int n < retries + 1 \<Longrightarrow> n < sends (request_loop retries b rnd send n le sl)"
proof (induction retries b rnd send n le sl rule: request_loop.induct)
  case (1 retries b rnd send n le sl)
  show ?case
  proof (cases "send n")
    case (Inr resp)
    with "1.prems" show ?thesis by (subst request_loop.simps) auto
  next
    case (Inl e)
    show ?thesis
    proof (cases "shouldRetry retries e (int n + 1)")
      case False
      with "1.prems" Inl show ?thesis by (subst request_loop.simps) auto
    next
      case sr: True
      then have lt: "int n + 1 < retries" by (auto simp: shouldRetry_def split: if_splits)
      then have "n + 1 < sends (request_loop retries b rnd send (n + 1) (Some e)
            (sl @ [calculateRetryDelay b (rnd n) (int n + 1)]))"
        using "1.IH"(1)[OF "1.prems" Inl] sr by auto
      with "1.prems" Inl sr lt show ?thesis by (subst request_loop.simps) auto
    qed
  qed
qed

lemma shouldRetry_iff:
  "shouldRetry retries e a \<longleftrightarrow>
     a < retries \<and> (e = NetworkError \<or> (\<exists>s. e = ApiError s \<and> s \<in> {408, 429, 500, 502, 503, 504}))"
  by (cases e) (auto simp: shouldRetry_def retryableStatuses_def)

lemma request_loop_exit:
  "\<not> int n < retries + 1 \<Longrightarrow>
   request_loop retries b rnd send n le sl = \<lparr>outcome = Thrown le, sends = n, sleeps = sl\<rparr>"
  by (subst request_loop.simps) simp

lemma request_loop_success:
  "int n < retries + 1 \<Longrightarrow> send n = Inr resp \<Longrightarrow>
   request_loop retries b rnd send n le sl = \<lparr>outcome = Returned resp, sends = n + 1, sleeps = sl\<rparr>"
  by (subst request_loop.simps) simp

lemma request_loop_give_up:
  "int n < retries + 1 \<Longrightarrow> send n = Inl e \<Longrightarrow> \<not> shouldRetry retries e (int n + 1) \<Longrightarrow>
   request_loop retries b rnd send n le sl = \<lparr>outcome = Thrown (Some e), sends = n + 1, sleeps = sl\<rparr>"
  by (subst request_loop.simps) simp

lemma request_loop_retry:
  "int n < retries + 1 \<Longrightarrow> send n = Inl e \<Longrightarrow> shouldRetry retries e (int n + 1) \<Longrightarrow>
   request_loop retries b rnd send n le sl =
     request_loop retries b rnd send (n + 1) (Some e)
       (sl @ [calculateRetryDelay b (rnd n) (int n + 1)])"
  by (subst request_loop.simps) (auto simp: shouldRetry_def split: if_splits)

lemma request_loop_trace:
  "m \<le> n \<Longrightarrow> n < sends (request_loop retries b rnd send m le sl) \<Longrightarrow> send n = Inl e \<Longrightarrow>
   (if shouldRetry retries e (int n + 1)
    then n + 1 < sends (request_loop retries b rnd send m le sl)
    else request_loop retries b rnd send m le sl =
           \<lparr>outcome = Thrown (Some e), sends = n + 1,
            sleeps = sleeps (request_loop retries b rnd send m le sl)\<rparr>)"
proof (induction retries b rnd send m le sl rule: request_loop.induct)
  case (1 retries b rnd send m le sl)
  show ?case
  proof (cases "int m < retries + 1")
    case False
    with "1.prems" show ?thesis by (simp add: request_loop_exit)
  next
    case True
    show ?thesis
    proof (cases "send m")
      case (Inr resp)
      with True "1.prems" have "sends (request_loop retries b rnd send m le sl) = m + 1"
        by (simp add: request_loop_success)
      with "1.prems" have "n = m" by simp
      with Inr "1.prems" show ?thesis by simp
    next
      case (Inl e')
      show ?thesis
      proof (cases "shouldRetry retries e' (int m + 1)")
        case False
        with True Inl have gu: "request_loop retries b rnd send m le sl =
            \<lparr>outcome = Thrown (Some e'), sends = m + 1, sleeps = sl\<rparr>"
          by (rule request_loop_give_up)
        with "1.prems" have "n = m" by simp
        with Inl "1.prems" False gu show ?thesis by simp
      next
        case sr: True
        have step: "request_loop retries b rnd send m le sl =
            request_loop retries b rnd send (m + 1) (Some e')
              (sl @ [calculateRetryDelay b (rnd m) (int m + 1)])"
          using True Inl sr by (rule request_loop_retry)
        show ?thesis
        proof (cases "n = m")
          case True
          from sr have "int (m + 1) < retries + 1" by (simp add: shouldRetry_def split: if_splits)
          from request_loop_sends_lower[OF this] True Inl sr "1.prems" show ?thesis
            by (simp add: step)
        next
          case False
          with "1.prems" have le: "m + 1 \<le> n" by simp
          from sr have le': "int m + 1 \<le> retries" by (simp add: shouldRetry_def split: if_splits)
          from "1.prems"(2) have lt: "n < sends (request_loop retries b rnd send (m + 1) (Some e')
              (sl @ [calculateRetryDelay b (rnd m) (int m + 1)]))"
            unfolding step .
          from sr have nn: "\<not> \<not> shouldRetry retries e' (int m + 1)" by simp
          show ?thesis
            unfolding step by (rule "1.IH"(1)[OF True Inl nn le' le lt "1.prems"(3)])
        qed
      qed
    qed
  qed
qed

lemma request_loop_sleeps:
  "int n < retries + 1 \<Longrightarrow>
   length (sleeps (request_loop retries b rnd send n le sl)) + n + 1 =
     length sl + sends (request_loop retries b rnd send n le sl)
   \<and> (\<forall>d \<in> set (sleeps (request_loop retries b rnd send n le sl)) - set sl. d \<le> 30000)"
proof (induction retries b rnd send n le sl rule: request_loop.induct)
  case (1 retries b rnd send n le sl)
  show ?case
  proof (cases "send n")
    case (Inr resp)
    with "1.prems" show ?thesis by (simp add: request_loop_success)
  next
    case (Inl e)
    show ?thesis
    proof (cases "shouldRetry retries e (int n + 1)")
      case False
      with "1.prems" Inl show ?thesis by (simp add: request_loop_give_up)
    next
      case sr: True
      then have lt: "int n + 1 < retries" by (auto simp: shouldRetry_def split: if_splits)
      have step: "request_loop retries b rnd send n le sl =
          request_loop retries b rnd send (n + 1) (Some e)
            (sl @ [calculateRetryDelay b (rnd n) (int n + 1)])"
        using "1.prems" Inl sr by (rule request_loop_retry)
      with "1.IH"(1)[OF "1.prems" Inl] sr lt
      show ?thesis
        by (auto simp: calculateRetryDelay_cap)
    qed
  qed
qed

lemma request_loop_all_fail:
  "int n < retries + 1 \<Longrightarrow> \<forall>i. \<exists>e. send i = Inl e \<Longrightarrow>
   outcome (request_loop retries b rnd send n le sl) =
     Thrown (Some (projl (send (sends (request_loop retries b rnd send n le sl) - 1))))"
proof (induction retries b rnd send n le sl rule: request_loop.induct)
  case (1 retries b rnd send n le sl)
  from "1.prems" obtain e where Inl: "send n = Inl e" by blast
  show ?case
  proof (cases "shouldRetry retries e (int n + 1)")
    case False
    with "1.prems" Inl show ?thesis by (simp add: request_loop_give_up)
  next
    case sr: True
    then have lt: "int n + 1 < retries" by (auto simp: shouldRetry_def split: if_splits)
    have step: "request_loop retries b rnd send n le sl =
        request_loop retries b rnd send (n + 1) (Some e)
          (sl @ [calculateRetryDelay b (rnd n) (int n + 1)])"
      using "1.prems"(1) Inl sr by (rule request_loop_retry)
    with "1.IH"(1)[OF "1.prems"(1) Inl] sr "1.prems"(2) lt
    show ?thesis
      by auto
  qed
qed

text \<open>
  Claim C5, as the code has it. Let the \<open>n\<close>-th send of a request (counted from 0) have
  happened and failed with \<open>e\<close>. Another send follows exactly when fewer than
  \<open>retries\<close> sends have failed so far (\<open>n + 1 < retries\<close>) and \<open>e\<close> is a network error
  (no response: timeout or connection failure) or an HTTP error whose status is one of
  408, 429, 500, 502, 503, 504. Otherwise that send was the last one and the request
  throws \<open>e\<close> itself.
\<close>

theorem request_retries_exactly_listed_failures:
  assumes "n < sends (request retries retryDelay random send)" and "send n = Inl e"
  shows "(n + 1 < sends (request retries retryDelay random send) \<longleftrightarrow>
           int n + 1 < retries \<and>
           (e = NetworkError \<or> (\<exists>s. e = ApiError s \<and> s \<in> {408, 429, 500, 502, 503, 504})))
       \<and> (n + 1 = sends (request retries retryDelay random send) \<longrightarrow>
           outcome (request retries retryDelay random send) = Thrown (Some e))"
proof -
  let ?R = "request_loop retries retryDelay random send 0 None []"
  from assms have tr: "if shouldRetry retries e (int n + 1) then n + 1 < sends ?R
     else ?R = \<lparr>outcome = Thrown (Some e), sends = n + 1, sleeps = sleeps ?R\<rparr>"
    unfolding request_def by (intro request_loop_trace) simp_all
  show ?thesis
  proof (cases "shouldRetry retries e (int n + 1)")
    case True
    with tr have "n + 1 < sends ?R" by simp
    with True show ?thesis unfolding request_def shouldRetry_iff by simp
  next
    case False
    with tr have eq: "?R = \<lparr>outcome = Thrown (Some e), sends = n + 1, sleeps = sleeps ?R\<rparr>" by simp
    have "sends ?R = n + 1" by (subst eq) simp
    moreover have "outcome ?R = Thrown (Some e)" by (subst eq) simp
    ultimately show ?thesis using False unfolding request_def shouldRetry_iff by simp
  qed
qed

theorem request_retries_exactly_listed_failures_witness:
  "0 < sends (request 3 1000 no_jitter (always_fail (ApiError 503)))
   \<and> always_fail (ApiError 503) 0 = Inl (ApiError 503)
   \<and> 0 + 1 < sends (request 3 1000 no_jitter (always_fail (ApiError 503)))"
  using request_retries_exactly_listed_failures
          [of 0 3 1000 no_jitter "always_fail (ApiError 503)" "ApiError 503"]
  by (simp add: request_def request_loop.simps always_fail_def shouldRetry_def retryableStatuses_def)

text \<open>
  The claim as worded (retry exactly on network errors, 5xx and 429; every other 4xx
  propagates at once) fails in both directions: with the default three retries, a
  request answered 408 every time is sent three times, and one answered 501 is sent once.
\<close>

theorem request_retries_408_counterexample:
  "sends (request 3 1000 no_jitter (always_fail (ApiError 408))) = 3
   \<and> sends (request 3 1000 no_jitter (always_fail (ApiError 501))) = 1
   \<and> isRetryableError (ApiError 408) \<and> \<not> isRetryableError (ApiError 501)"
  by (simp add: request_def request_loop.simps always_fail_def shouldRetry_def
        isRetryableError_def retryableStatuses_def)

text \<open>
  Claim C9. A request calls \<open>axiosInstance.request\<close> at most \<open>1 + retries\<close> times (not at
  all when the retry count is negative), sleeps once between two consecutive sends and
  never longer than 30000 ms at a time. With a non-negative retry count at least one send
  is made, and when every send fails the request ends by throwing the error of its last
  send. The loop is a total function (its termination is proved where it is defined), so
  the request always ends.
\<close>

theorem request_attempts_bounded:
  "sends (request retries retryDelay random send) \<le> nat (1 + retries)
   \<and> length (sleeps (request retries retryDelay random send)) =
       sends (request retries retryDelay random send) - 1
   \<and> (\<forall>d \<in> set (sleeps (request retries retryDelay random send)). d \<le> 30000)
   \<and> (0 \<le> retries \<and> (\<forall>i. \<exists>e. send i = Inl e) \<longrightarrow>
        1 \<le> sends (request retries retryDelay random send)
        \<and> (\<exists>e. send (sends (request retries retryDelay random send) - 1) = Inl e
               \<and> outcome (request retries retryDelay random send) = Thrown (Some e)))"
proof -
  let ?R = "request_loop retries retryDelay random send 0 None []"
  have "sends ?R \<le> max 0 (nat (retries + 1))" by (rule request_loop_sends_upper)
  then have a: "sends ?R \<le> nat (1 + retries)" by (simp add: add.commute)
  have bc: "length (sleeps ?R) = sends ?R - 1 \<and> (\<forall>d \<in> set (sleeps ?R). d \<le> 30000)"
  proof (cases "0 \<le> retries")
    case True
    then have enter: "int 0 < retries + 1" by simp
    from request_loop_sleeps[OF enter, of retryDelay random send None "[]"]
    have "length (sleeps ?R) + 1 = sends ?R" and "\<forall>d \<in> set (sleeps ?R). d \<le> 30000"
      by simp_all
    then show ?thesis by auto
  next
    case False
    then have "\<not> int 0 < retries + 1" by simp
    then have "?R = \<lparr>outcome = Thrown None, sends = 0, sleeps = []\<rparr>"
      by (rule request_loop_exit)
    then show ?thesis by simp
  qed
  have d: "0 \<le> retries \<and> (\<forall>i. \<exists>e. send i = Inl e) \<longrightarrow>
       1 \<le> sends ?R \<and> (\<exists>e. send (sends ?R - 1) = Inl e \<and> outcome ?R = Thrown (Some e))"
  proof
    assume h: "0 \<le> retries \<and> (\<forall>i. \<exists>e. send i = Inl e)"
    then have enter: "int 0 < retries + 1" and all: "\<forall>i. \<exists>e. send i = Inl e" by simp_all
    from request_loop_sends_lower[OF enter, of retryDelay random send None "[]"]
    have one: "1 \<le> sends ?R" by simp
    from all obtain e where e: "send (sends ?R - 1) = Inl e" by blast
    from request_loop_all_fail[OF enter all, of retryDelay random None "[]"] e
    have "outcome ?R = Thrown (Some e)" by simp
    with one e show "1 \<le> sends ?R \<and>
        (\<exists>e. send (sends ?R - 1) = Inl e \<and> outcome ?R = Thrown (Some e))"
      by blast
  qed
  from a bc d show ?thesis unfolding request_def by blast
qed

theorem request_attempts_bounded_witness:
  "(0::int) \<le> 3
   \<and> sends (request 3 1000 no_jitter (always_fail NetworkError)) \<le> 4
   \<and> sleeps (request 3 1000 no_jitter (always_fail NetworkError)) = [1000, 2000]
   \<and> outcome (request 3 1000 no_jitter (always_fail NetworkError)) = Thrown (Some NetworkError)"
  using request_attempts_bounded [of 3 1000 no_jitter "always_fail NetworkError"]
  by (simp add: request_def request_loop.simps always_fail_def no_jitter_def shouldRetry_def
        calculateRetryDelay_def)

section \<open>Properties of the parameter validation\<close>

lemma isInteger_iff: "isInteger n \<longleftrightarrow> (\<exists>k::int. n = Finite (of_int k))"
proof (cases n)
  case (Finite r)
  have "(of_int (floor r) = r) \<longleftrightarrow> (\<exists>k::int. r = of_int k)"
    by (metis floor_of_int)
  with Finite show ?thesis by simp
qed simp_all

lemma page_check_iff:
  "(\<not> isInteger pg \<or> js_less pg (Finite 1)) \<longleftrightarrow> \<not> (\<exists>k::int. 1 \<le> k \<and> pg = Finite (of_int k))"
proof (cases "isInteger pg")
  case False
  then show ?thesis by (auto simp: isInteger_iff)
next
  case True
  then obtain k :: int where k: "pg = Finite (of_int k)" by (auto simp: isInteger_iff)
  have "js_less pg (Finite 1) \<longleftrightarrow> k < 1" unfolding k by simp
  then show ?thesis using True k by auto
qed

lemma limit_check_iff:
  "(\<not> isInteger lm \<or> js_less lm (Finite 1) \<or> js_less MAX_PAGE_SIZE lm) \<longleftrightarrow>
     \<not> (\<exists>k::int. 1 \<le> k \<and> k \<le> 100 \<and> lm = Finite (of_int k))"
proof (cases "isInteger lm")
  case False
  then show ?thesis by (auto simp: isInteger_iff)
next
  case True
  then obtain k :: int where k: "lm = Finite (of_int k)" by (auto simp: isInteger_iff)
  have "js_less lm (Finite 1) \<longleftrightarrow> k < 1" unfolding k by simp
  moreover have "js_less MAX_PAGE_SIZE lm \<longleftrightarrow> 100 < k"
    unfolding k MAX_PAGE_SIZE_def by simp
  ultimately show ?thesis using True k by auto
qed

lemma dropWhile_all_iff: "(\<forall>u \<in> set (dropWhile P c). P u) \<longleftrightarrow> (\<forall>u \<in> set c. P u)"
  by (induction c) auto

lemma trim_empty_iff: "length (trim c) = 0 \<longleftrightarrow> (\<forall>u \<in> set c. isWhiteSpace u)"
  by (simp add: trim_def dropWhile_all_iff)

lemma validateHistoryParams_rejects_iff:
  "(\<exists>err. validateHistoryParams (Some ps) = Inl err) \<longleftrightarrow> claimed_invalid_params ps"
  unfolding validateHistoryParams_def claimed_invalid_params_def
    page_check_iff limit_check_iff trim_empty_iff
  by (auto split: option.splits)

lemma validateHistoryParams_accepts:
  assumes "\<not> claimed_invalid_params ps"
  shows "validateHistoryParams (Some ps) =
     Inr \<lparr>page_opt = page_opt ps, limit_opt = limit_opt ps,
          category_opt = map_option trim (category_opt ps)\<rparr>"
proof -
  from assms have "\<not> (\<exists>err. validateHistoryParams (Some ps) = Inl err)"
    by (simp add: validateHistoryParams_rejects_iff)
  then show ?thesis
    unfolding validateHistoryParams_def by (simp split: if_splits)
qed

lemma validateHistoryParams_rejects:
  assumes "claimed_invalid_params ps"
  shows "\<exists>msg fld. validateHistoryParams (Some ps) = Inl (ValidationError msg fld)"
proof -
  from assms obtain err where "validateHistoryParams (Some ps) = Inl err"
    using validateHistoryParams_rejects_iff by blast
  then show ?thesis
    unfolding validateHistoryParams_def by (auto split: if_splits)
qed

lemma valid_page_truthy:
  assumes "\<not> claimed_invalid_params ps" and "page_opt ps = Some pg"
  shows "truthy (JNum pg)"
proof -
  from assms obtain k :: int where "1 \<le> k" and "pg = Finite (of_int k)"
    unfolding claimed_invalid_params_def by auto
  then show ?thesis by auto
qed

lemma valid_limit_truthy:
  assumes "\<not> claimed_invalid_params ps" and "limit_opt ps = Some lm"
  shows "truthy (JNum lm)"
proof -
  from assms obtain k :: int where "1 \<le> k" and "lm = Finite (of_int k)"
    unfolding claimed_invalid_params_def by auto
  then show ?thesis by auto
qed


lemma historyQuery_requested:
  assumes "validateHistoryParams params = Inr v"
  shows "requested (historyQuery retries retryDelay random server params) =
     Some \<lparr>qp_page = (case page_opt v of
                               Some pg \<Rightarrow> if truthy (JNum pg) then pg else Finite 1
                             | None \<Rightarrow> Finite 1),
                  qp_limit = (case limit_opt v of
                               Some lm \<Rightarrow> if truthy (JNum lm) then lm else DEFAULT_PAGE_SIZE
                             | None \<Rightarrow> DEFAULT_PAGE_SIZE),
                  qp_category = (case category_opt v of
                               Some c \<Rightarrow> if truthy (JStr c) then Some c else None
                             | None \<Rightarrow> None)\<rparr>"
  unfolding historyQuery_def Let_def using assms
  by (simp split: outcome.split)


text \<open>
  Claim C10. \<open>historyQuery\<close> throws a \<open>ValidationError\<close> with no call of
  \<open>apiClient.get\<close> and no HTTP send whenever the parameters are invalid in the claim's
  sense; otherwise it calls \<open>apiClient.get\<close> with the page and limit it was given, page 1
  and limit 20 standing in for an omitted one; and with no parameter object at all it
  sends page 1 and limit 20.
\<close>

theorem historyQuery_validates_params_first:
  "(claimed_invalid_params ps \<longrightarrow>
      (\<exists>msg fld. historyQuery retries retryDelay random server (Some ps) =
          \<lparr>result = Inl (ValidationError msg fld), requested = None, http_sends = 0\<rparr>))
   \<and> (\<not> claimed_invalid_params ps \<longrightarrow>
      (\<exists>q. requested (historyQuery retries retryDelay random server (Some ps)) = Some q
         \<and> qp_page q = (case page_opt ps of None \<Rightarrow> Finite 1 | Some pg \<Rightarrow> pg)
         \<and> qp_limit q = (case limit_opt ps of None \<Rightarrow> Finite 20 | Some lm \<Rightarrow> lm)))
   \<and> requested (historyQuery retries retryDelay random server None) =
        Some \<lparr>qp_page = Finite 1, qp_limit = Finite 20, qp_category = None\<rparr>"
proof (intro conjI impI)
  assume "claimed_invalid_params ps"
  then obtain msg fld where "validateHistoryParams (Some ps) = Inl (ValidationError msg fld)"
    using validateHistoryParams_rejects by blast
  then have "historyQuery retries retryDelay random server (Some ps) =
          \<lparr>result = Inl (ValidationError msg fld), requested = None, http_sends = 0\<rparr>"
    by (simp add: historyQuery_def)
  then show "\<exists>msg fld. historyQuery retries retryDelay random server (Some ps) =
          \<lparr>result = Inl (ValidationError msg fld), requested = None, http_sends = 0\<rparr>"
    by blast
next
  assume ok: "\<not> claimed_invalid_params ps"
  note v = validateHistoryParams_accepts[OF ok]
  have pg: "(case page_opt ps of Some pg \<Rightarrow> if truthy (JNum pg) then pg else Finite 1
                             | None \<Rightarrow> Finite 1) =
            (case page_opt ps of None \<Rightarrow> Finite 1 | Some pg \<Rightarrow> pg)"
    using valid_page_truthy[OF ok] by (cases "page_opt ps") simp_all
  have lm: "(case limit_opt ps of Some lm \<Rightarrow> if truthy (JNum lm) then lm else DEFAULT_PAGE_SIZE
                             | None \<Rightarrow> DEFAULT_PAGE_SIZE) =
            (case limit_opt ps of None \<Rightarrow> Finite 20 | Some lm \<Rightarrow> lm)"
    using valid_limit_truthy[OF ok] by (cases "limit_opt ps") (simp_all add: DEFAULT_PAGE_SIZE_def)
  show "\<exists>q. requested (historyQuery retries retryDelay random server (Some ps)) = Some q
         \<and> qp_page q = (case page_opt ps of None \<Rightarrow> Finite 1 | Some pg \<Rightarrow> pg)
         \<and> qp_limit q = (case limit_opt ps of None \<Rightarrow> Finite 20 | Some lm \<Rightarrow> lm)"
    unfolding historyQuery_requested[OF v] using pg lm by simp
next
  have "validateHistoryParams None =
      Inr \<lparr>page_opt = None, limit_opt = None, category_opt = None\<rparr>"
    by (simp add: validateHistoryParams_def)
  from historyQuery_requested[OF this]
  show "requested (historyQuery retries retryDelay random server None) =
        Some \<lparr>qp_page = Finite 1, qp_limit = Finite 20, qp_category = None\<rparr>"
    by (simp add: DEFAULT_PAGE_SIZE_def)
qed

lemma bad_page_params_invalid: "claimed_invalid_params bad_page_params"
  by (simp add: claimed_invalid_params_def bad_page_params_def)

lemma good_params_valid: "\<not> claimed_invalid_params good_params"
proof -
  have "(1::int) \<le> 50 \<and> (50::int) \<le> 100 \<and> (50::rat) = rat_of_int 50" by simp
  then have "\<exists>k::int. 1 \<le> k \<and> k \<le> 100 \<and> (50::rat) = rat_of_int k" by (rule exI)
  moreover have "\<not> (\<forall>u \<in> set (utf16 ''cs.AI''). isWhiteSpace u)"
    by (simp add: utf16_def isWhiteSpace_def)
  ultimately show ?thesis
    by (simp add: claimed_invalid_params_def good_params_def)
qed

theorem historyQuery_validates_params_first_witness:
  "claimed_invalid_params bad_page_params
   \<and> (\<exists>msg fld. historyQuery 3 1000 no_jitter (respond_with JNull) (Some bad_page_params) =
        \<lparr>result = Inl (ValidationError msg fld), requested = None, http_sends = 0\<rparr>)
   \<and> \<not> claimed_invalid_params good_params
   \<and> (\<exists>q. requested (historyQuery 3 1000 no_jitter (respond_with JNull) (Some good_params)) = Some q
        \<and> qp_page q = Finite 1 \<and> qp_limit q = Finite 50)"
proof -
  from historyQuery_validates_params_first [of bad_page_params 3 1000 no_jitter "respond_with JNull"]
    bad_page_params_invalid
  have a: "\<exists>msg fld. historyQuery 3 1000 no_jitter (respond_with JNull) (Some bad_page_params) =
        \<lparr>result = Inl (ValidationError msg fld), requested = None, http_sends = 0\<rparr>"
    by blast
  from historyQuery_validates_params_first [of good_params 3 1000 no_jitter "respond_with JNull"]
    good_params_valid
  have "\<exists>q. requested (historyQuery 3 1000 no_jitter (respond_with JNull) (Some good_params)) = Some q
         \<and> qp_page q = (case page_opt good_params of None \<Rightarrow> Finite 1 | Some pg \<Rightarrow> pg)
         \<and> qp_limit q = (case limit_opt good_params of None \<Rightarrow> Finite 20 | Some lm \<Rightarrow> lm)"
    by blast
  then have b: "\<exists>q. requested (historyQuery 3 1000 no_jitter (respond_with JNull) (Some good_params)) = Some q
        \<and> qp_page q = Finite 1 \<and> qp_limit q = Finite 50"
    by (simp add: good_params_def)
  from a b bad_page_params_invalid good_params_valid show ?thesis by blast
qed

section \<open>Properties of the response validators\<close>

lemma validatePaper_json_of_paper: "validatePaper (json_of_paper p)"
  by (simp add: validatePaper_def json_of_paper_def)

lemma validateEntry_json_of_entry: "validateEntry (json_of_entry e)"
  by (simp add: validateEntry_def json_of_entry_def validatePaper_json_of_paper)

lemma validateHistoryResponse_json_of_history: "validateHistoryResponse (json_of_history r)"
  by (simp add: validateHistoryResponse_def json_of_history_def json_of_pagination_def
        list_all_iff validateEntry_json_of_entry)

lemma validateHistoryResponse_documented:
  "\<not> validateHistoryResponse (json_of_documented_history es pg lm tot)"
  by (simp add: validateHistoryResponse_def json_of_documented_history_def
        list_all_iff validateEntry_json_of_entry)

lemma validatePaper_citationCount:
  "validatePaper v \<Longrightarrow> \<exists>n. get_prop v ''citationCount'' = JNum n"
  by (cases "get_prop v ''citationCount''") (auto simp: validatePaper_def split: if_splits)

lemma request_first_send_succeeds:
  assumes "0 \<le> retries" and "send 0 = Inr body"
  shows "request retries retryDelay random send = \<lparr>outcome = Returned body, sends = 1, sleeps = []\<rparr>"
proof -
  from assms(1) have "int 0 < retries + 1" by simp
  from request_loop_success[where n = 0 and send = send, OF this assms(2)]
  show ?thesis by (simp add: request_def)
qed

lemma historyQuery_result:
  assumes "validateHistoryParams params = Inr v" and "0 \<le> retries"
    and "\<forall>q. server q 0 = Inr body"
  shows "result (historyQuery retries retryDelay random server params) =
     (if validateHistoryResponse body then Inr body
      else Inl (ValidationError ''Invalid history response format'' None))"
proof -
  have "\<And>q. request retries retryDelay random (server q) =
      \<lparr>outcome = Returned body, sends = 1, sleeps = []\<rparr>"
    using assms(2,3) by (intro request_first_send_succeeds) simp_all
  then show ?thesis
    unfolding historyQuery_def Let_def using assms(1) by simp
qed

text \<open>
  Claim C8, as the code has it. With parameters that pass validation and a server whose
  first answer is the body, \<open>historyQuery\<close> returns the body when it is the JSON of a
  \<open>HistoryResponse\<close> (entries with paper, featuredDate and optional category; pagination
  with numeric page, limit, total and the boolean hasNext), and throws "Invalid history
  response format" when the pagination object has page, limit and total only.
\<close>

theorem historyQuery_accepts_history_with_hasNext:
  assumes "validateHistoryParams params = Inr v" and "0 \<le> retries"
  shows "((\<forall>q. server q 0 = Inr (json_of_history r)) \<longrightarrow>
            result (historyQuery retries retryDelay random server params) = Inr (json_of_history r))
       \<and> ((\<forall>q. server q 0 = Inr (json_of_documented_history es pg lm tot)) \<longrightarrow>
            result (historyQuery retries retryDelay random server params) =
              Inl (ValidationError ''Invalid history response format'' None))"
proof (intro conjI impI)
  assume "\<forall>q. server q 0 = Inr (json_of_history r)"
  from historyQuery_result[where server = server and body = "json_of_history r", OF assms this]
  show "result (historyQuery retries retryDelay random server params) = Inr (json_of_history r)"
    by (simp add: validateHistoryResponse_json_of_history)
next
  assume "\<forall>q. server q 0 = Inr (json_of_documented_history es pg lm tot)"
  from historyQuery_result[where server = server
      and body = "json_of_documented_history es pg lm tot", OF assms this]
  show "result (historyQuery retries retryDelay random server params) =
      Inl (ValidationError ''Invalid history response format'' None)"
    by (simp add: validateHistoryResponse_documented)
qed

theorem historyQuery_accepts_history_with_hasNext_witness:
  "validateHistoryParams None = Inr \<lparr>page_opt = None, limit_opt = None, category_opt = None\<rparr>
   \<and> (0::int) \<le> 3
   \<and> result (historyQuery 3 1000 no_jitter (respond_with (json_of_history mockHistoryResponse)) None)
       = Inr (json_of_history mockHistoryResponse)"
proof -
  have v: "validateHistoryParams None =
      Inr \<lparr>page_opt = None, limit_opt = None, category_opt = None\<rparr>"
    by (simp add: validateHistoryParams_def)
  have le: "(0::int) \<le> 3" by simp
  have srv: "\<forall>q. respond_with (json_of_history mockHistoryResponse) q 0 =
      Inr (json_of_history mockHistoryResponse)"
    by (simp add: respond_with_def)
  from historyQuery_accepts_history_with_hasNext[OF v le,
      of "respond_with (json_of_history mockHistoryResponse)" mockHistoryResponse] srv v
  show ?thesis by simp
qed

text \<open>
  The claim as worded fails: the mock history entry of test-mock.ts under a pagination
  object \<open>{page: 1, limit: 20, total: 100}\<close>, the shape of the documented Read API, is
  rejected.
\<close>

theorem historyQuery_rejects_documented_shape_counterexample:
  "result (historyQuery 3 1000 no_jitter
       (respond_with (json_of_documented_history [mockHistoryEntry] (Finite 1) (Finite 20) (Finite 100)))
       None)
   = Inl (ValidationError ''Invalid history response format'' None)"
proof -
  have v: "validateHistoryParams None =
      Inr \<lparr>page_opt = None, limit_opt = None, category_opt = None\<rparr>"
    by (simp add: validateHistoryParams_def)
  have srv: "\<forall>q. respond_with
       (json_of_documented_history [mockHistoryEntry] (Finite 1) (Finite 20) (Finite 100)) q 0 =
      Inr (json_of_documented_history [mockHistoryEntry] (Finite 1) (Finite 20) (Finite 100))"
    by (simp add: respond_with_def)
  have "(0::int) \<le> 3" by simp
  from historyQuery_result[where server = "respond_with
       (json_of_documented_history [mockHistoryEntry] (Finite 1) (Finite 20) (Finite 100))"
      and body = "json_of_documented_history [mockHistoryEntry] (Finite 1) (Finite 20) (Finite 100)",
      OF v this srv]
  show ?thesis
    by (simp add: validateHistoryResponse_documented)
qed

lemma upsert_keeps_counts_nonneg:
  assumes "\<forall>k q. repo k = Some q \<longrightarrow> 0 \<le> citationCount q"
    and "\<forall>n. cites = Some n \<longrightarrow> 0 \<le> n"
    and "upsert repo p cites k = Some q"
  shows "0 \<le> citationCount q"
proof (cases "k = arxivId p")
  case False
  with assms(3) have "repo k = Some q"
    by (simp add: upsert_def create_paper_def split: option.splits)
  with assms(1) show ?thesis by blast
next
  case True
  show ?thesis
  proof (cases "repo (arxivId p)")
    case None
    with True assms(3) have "citationCount q = (case cites of None \<Rightarrow> 0 | Some n \<Rightarrow> n)"
      by (auto simp: upsert_def create_paper_def)
    with assms(2) show ?thesis by (cases cites) simp_all
  next
    case (Some stored)
    with True assms(3)
    have "citationCount q = (case cites of None \<Rightarrow> citationCount stored | Some n \<Rightarrow> n)"
      by (auto simp: upsert_def)
    moreover from Some assms(1) have "0 \<le> citationCount stored" by blast
    ultimately show ?thesis using assms(2) by (cases cites) simp_all
  qed
qed

text \<open>
  Claim C7, as the code has it. \<open>validatePaper\<close> accepts a value only if its
  \<open>citationCount\<close> is a number, and it accepts the JSON of every \<open>Paper\<close>, whatever the
  sign of its count. An upsert into a repository whose counts are all \<open>\<ge> 0\<close>, with a
  count that is \<open>\<ge> 0\<close> or not given, leaves all counts \<open>\<ge> 0\<close>; a paper created without a
  count is stored with count 0.
\<close>

theorem validatePaper_checks_number_only:
  "(validatePaper v \<longrightarrow> (\<exists>n. get_prop v ''citationCount'' = JNum n))
   \<and> validatePaper (json_of_paper p)
   \<and> ((\<forall>k q. repo k = Some q \<longrightarrow> 0 \<le> citationCount q) \<and> (\<forall>n. cites = Some n \<longrightarrow> 0 \<le> n)
        \<longrightarrow> (\<forall>k q. upsert repo p cites k = Some q \<longrightarrow> 0 \<le> citationCount q))
   \<and> (repo (arxivId p) = None \<longrightarrow>
        map_option citationCount (upsert repo p None (arxivId p)) = Some 0)"
proof (intro conjI impI allI)
  assume "validatePaper v"
  then show "\<exists>n. get_prop v ''citationCount'' = JNum n" by (rule validatePaper_citationCount)
next
  show "validatePaper (json_of_paper p)" by (rule validatePaper_json_of_paper)
next
  fix k q
  assume "(\<forall>k q. repo k = Some q \<longrightarrow> 0 \<le> citationCount q) \<and> (\<forall>n. cites = Some n \<longrightarrow> 0 \<le> n)"
    and "upsert repo p cites k = Some q"
  then show "0 \<le> citationCount q" using upsert_keeps_counts_nonneg by blast
next
  assume "repo (arxivId p) = None"
  then show "map_option citationCount (upsert repo p None (arxivId p)) = Some 0"
    by (simp add: upsert_def create_paper_def)
qed

text \<open>
  The claim as worded fails: \<open>validatePaper\<close> accepts the mock paper with its citation
  count set to \<open>-5\<close>.
\<close>

theorem validatePaper_negative_count_counterexample:
  "validatePaper (json_of_paper (mockPaper\<lparr>citationCount := - 5\<rparr>))
   \<and> get_prop (json_of_paper (mockPaper\<lparr>citationCount := - 5\<rparr>)) ''citationCount''
       = JNum (Finite (- 5))"
  by (simp add: validatePaper_def json_of_paper_def)

theorem validatePaper_checks_number_only_witness:
  "validatePaper (json_of_paper mockPaper)
   \<and> (\<exists>n. get_prop (json_of_paper mockPaper) ''citationCount'' = JNum n)
   \<and> map_option citationCount
        (upsert (upsert Map.empty mockPaper None) mockPaper (Some 45678) (arxivId mockPaper))
      = Some 45678
   \<and> map_option citationCount (upsert Map.empty mockPaper None (arxivId mockPaper)) = Some 0"
proof -
  have a: "validatePaper (json_of_paper mockPaper)" by (rule validatePaper_json_of_paper)
  from validatePaper_checks_number_only [of "json_of_paper mockPaper" mockPaper Map.empty None] a
  have b: "\<exists>n. get_prop (json_of_paper mockPaper) ''citationCount'' = JNum n"
    and c: "map_option citationCount (upsert Map.empty mockPaper None (arxivId mockPaper)) = Some 0"
    by simp_all
  have d: "map_option citationCount
        (upsert (upsert Map.empty mockPaper None) mockPaper (Some 45678) (arxivId mockPaper))
      = Some 45678"
    by (simp add: upsert_def create_paper_def)
  from a b c d show ?thesis by blast
qed


section \<open>Properties of the historical window\<close>

lemma windowDates_nth:
  assumes "1 \<le> k" and "k \<le> yearsBack"
  shows "windowDates target yearsBack ! (k - 1) = candidate_date target (year target - int k)"
proof -
  from assms have "k - 1 < length [1..<yearsBack + 1]" by simp
  then have "windowDates target yearsBack ! (k - 1) =
      candidate_date target (year target - int ([1..<yearsBack + 1] ! (k - 1)))"
    unfolding windowDates_def by (rule nth_map)
  moreover from assms have "1 + (k - 1) < yearsBack + 1" by simp
  then have "[1..<yearsBack + 1] ! (k - 1) = 1 + (k - 1)" by (rule nth_upt)
  ultimately show ?thesis using assms by simp
qed

lemma candidate_date_valid:
  assumes "valid_date target"
  shows "valid_date (candidate_date target y)"
proof (cases "month target = 2")
  case False
  with assms show ?thesis
    by (auto simp: valid_date_def candidate_date_def days_in_month_def)
next
  case True
  with assms have "day target \<le> 29" by (auto simp: valid_date_def days_in_month_def split: if_splits)
  with True assms show ?thesis
    by (auto simp: valid_date_def candidate_date_def days_in_month_def)
qed

lemma windowDates_2024: "windowDates leap_day_2024 10 =
     [\<lparr>year = 2023, month = 2, day = 28\<rparr>, \<lparr>year = 2022, month = 2, day = 28\<rparr>,
      \<lparr>year = 2021, month = 2, day = 28\<rparr>, \<lparr>year = 2020, month = 2, day = 29\<rparr>,
      \<lparr>year = 2019, month = 2, day = 28\<rparr>, \<lparr>year = 2018, month = 2, day = 28\<rparr>,
      \<lparr>year = 2017, month = 2, day = 28\<rparr>, \<lparr>year = 2016, month = 2, day = 29\<rparr>,
      \<lparr>year = 2015, month = 2, day = 28\<rparr>, \<lparr>year = 2014, month = 2, day = 28\<rparr>]"
  by (simp add: windowDates_def leap_day_2024_def candidate_date_def is_leap_year_def upt_conv_Cons)

text \<open>
  Claim C4. \<open>windowDates\<close> returns exactly \<open>yearsBack\<close> dates. For a target of February
  29, the date for the year \<open>k\<close> years back is February 29 when that year is a leap
  year and February 28 otherwise. Every date of the window is a calendar date when the
  target is one. For February 29 2024 and ten years the window is the ten dates listed.
\<close>

theorem windowDates_exactly_yearsBack:
  "length (windowDates target yearsBack) = yearsBack
   \<and> (month target = 2 \<and> day target = 29 \<longrightarrow>
        (\<forall>k. 1 \<le> k \<and> k \<le> yearsBack \<longrightarrow>
           windowDates target yearsBack ! (k - 1) =
             \<lparr>year = year target - int k, month = 2,
              day = (if is_leap_year (year target - int k) then 29 else 28)\<rparr>))
   \<and> (valid_date target \<longrightarrow> (\<forall>d \<in> set (windowDates target yearsBack). valid_date d))
   \<and> windowDates leap_day_2024 10 =
     [\<lparr>year = 2023, month = 2, day = 28\<rparr>, \<lparr>year = 2022, month = 2, day = 28\<rparr>,
      \<lparr>year = 2021, month = 2, day = 28\<rparr>, \<lparr>year = 2020, month = 2, day = 29\<rparr>,
      \<lparr>year = 2019, month = 2, day = 28\<rparr>, \<lparr>year = 2018, month = 2, day = 28\<rparr>,
      \<lparr>year = 2017, month = 2, day = 28\<rparr>, \<lparr>year = 2016, month = 2, day = 29\<rparr>,
      \<lparr>year = 2015, month = 2, day = 28\<rparr>, \<lparr>year = 2014, month = 2, day = 28\<rparr>]"
proof (intro conjI impI allI ballI)
  show "length (windowDates target yearsBack) = yearsBack" by (simp add: windowDates_def)
next
  fix k
  assume feb: "month target = 2 \<and> day target = 29" and k: "1 \<le> k \<and> k \<le> yearsBack"
  then have "windowDates target yearsBack ! (k - 1) = candidate_date target (year target - int k)"
    by (intro windowDates_nth) simp_all
  with feb show "windowDates target yearsBack ! (k - 1) =
      \<lparr>year = year target - int k, month = 2,
       day = (if is_leap_year (year target - int k) then 29 else 28)\<rparr>"
    by (simp add: candidate_date_def)
next
  fix d
  assume "valid_date target" and "d \<in> set (windowDates target yearsBack)"
  then show "valid_date d" by (auto simp: windowDates_def candidate_date_valid)
next
  show "windowDates leap_day_2024 10 =
     [\<lparr>year = 2023, month = 2, day = 28\<rparr>, \<lparr>year = 2022, month = 2, day = 28\<rparr>,
      \<lparr>year = 2021, month = 2, day = 28\<rparr>, \<lparr>year = 2020, month = 2, day = 29\<rparr>,
      \<lparr>year = 2019, month = 2, day = 28\<rparr>, \<lparr>year = 2018, month = 2, day = 28\<rparr>,
      \<lparr>year = 2017, month = 2, day = 28\<rparr>, \<lparr>year = 2016, month = 2, day = 29\<rparr>,
      \<lparr>year = 2015, month = 2, day = 28\<rparr>, \<lparr>year = 2014, month = 2, day = 28\<rparr>]"
    by (rule windowDates_2024)
qed

theorem windowDates_exactly_yearsBack_witness:
  "month leap_day_2024 = 2 \<and> day leap_day_2024 = 29 \<and> valid_date leap_day_2024
   \<and> length (windowDates leap_day_2024 10) = 10
   \<and> windowDates leap_day_2024 10 ! (4 - 1) = \<lparr>year = 2020, month = 2, day = 29\<rparr>
   \<and> windowDates leap_day_2024 10 ! (1 - 1) = \<lparr>year = 2023, month = 2, day = 28\<rparr>
   \<and> valid_date (windowDates leap_day_2024 10 ! 0)"
proof -
  have a: "month leap_day_2024 = 2 \<and> day leap_day_2024 = 29"
    by (simp add: leap_day_2024_def)
  have v: "valid_date leap_day_2024"
    by (simp add: leap_day_2024_def valid_date_def days_in_month_def is_leap_year_def)
  note t = windowDates_exactly_yearsBack [of leap_day_2024 10]
  from t have "length (windowDates leap_day_2024 10) = 10" by blast
  then have len: "length (windowDates leap_day_2024 10) = 10" .
  from t a have nth: "\<forall>k. 1 \<le> k \<and> k \<le> 10 \<longrightarrow>
           windowDates leap_day_2024 10 ! (k - 1) =
             \<lparr>year = year leap_day_2024 - int k, month = 2,
              day = (if is_leap_year (year leap_day_2024 - int k) then 29 else 28)\<rparr>"
    by blast
  from nth[rule_format, of 4]
  have n4: "windowDates leap_day_2024 10 ! (4 - 1) = \<lparr>year = 2020, month = 2, day = 29\<rparr>"
    by (simp add: leap_day_2024_def is_leap_year_def)
  from nth[rule_format, of 1]
  have n1: "windowDates leap_day_2024 10 ! (1 - 1) = \<lparr>year = 2023, month = 2, day = 28\<rparr>"
    by (simp add: leap_day_2024_def is_leap_year_def)
  from t v have "\<forall>d \<in> set (windowDates leap_day_2024 10). valid_date d" by blast
  moreover from len have "windowDates leap_day_2024 10 ! 0 \<in> set (windowDates leap_day_2024 10)"
    by (intro nth_mem) simp
  ultimately have v0: "valid_date (windowDates leap_day_2024 10 ! 0)" by blast
  from a v len n4 n1 v0 show ?thesis by blast
qed

section \<open>Properties of the ranking\<close>

lemma insert_by_citations:
  "insert_by byCitationsDesc x ys = insort_key (\<lambda>p. - citationCount p) x ys"
  by (induction ys) (simp_all add: byCitationsDesc_def)

lemma array_sort_citations:
  "array_sort byCitationsDesc ps = sort_key (\<lambda>p. - citationCount p) ps"
  by (induction ps) (simp_all add: array_sort_def insert_by_citations)

lemma array_sort_descending:
  "sorted_wrt (\<ge>) (map citationCount (array_sort byCitationsDesc ps))"
proof -
  have "sorted (map (\<lambda>p. - citationCount p) (sort_key (\<lambda>p. - citationCount p) ps))"
    by (rule sorted_sort_key)
  then show ?thesis
    by (simp add: array_sort_citations sorted_wrt_map)
qed

lemma array_sort_stable:
  "filter (\<lambda>p. citationCount p = c) (array_sort byCitationsDesc ps) =
   filter (\<lambda>p. citationCount p = c) ps"
proof -
  have "filter (\<lambda>p. - citationCount p = - c) (sort_key (\<lambda>p. - citationCount p) ps) =
      filter (\<lambda>p. - citationCount p = - c) ps"
    by (rule sort_key_stable)
  then show ?thesis by (simp add: array_sort_citations)
qed

lemma array_sort_counts_permutation:
  assumes "mset qs = mset ps"
  shows "map citationCount (array_sort byCitationsDesc qs) =
         map citationCount (array_sort byCitationsDesc ps)"
proof -
  let ?f = "\<lambda>p. - citationCount p"
  have key: "map ?f (sort_key ?f xs) = sort (map ?f xs)" for xs :: "paper list"
    by (rule properties_for_sort[symmetric]) (simp_all add: sorted_sort_key)
  from assms have "mset (map ?f qs) = mset (map ?f ps)" by simp
  then have "sort (map ?f qs) = sort (map ?f ps)"
    by (intro properties_for_sort) simp_all
  then have "map ?f (sort_key ?f qs) = map ?f (sort_key ?f ps)" by (simp add: key)
  then have "map uminus (map ?f (sort_key ?f qs)) = map uminus (map ?f (sort_key ?f ps))"
    by simp
  then show ?thesis by (simp add: array_sort_citations comp_def)
qed

lemma array_sort_permutation_distinct:
  assumes "mset qs = mset ps" and "distinct (map citationCount ps)"
  shows "array_sort byCitationsDesc qs = array_sort byCitationsDesc ps"
proof -
  let ?f = "\<lambda>p. - citationCount p"
  from assms(2) have "inj_on citationCount (set ps)" by (simp add: distinct_map)
  then have "inj_on ?f (set ps)" by (auto simp: inj_on_def)
  moreover from assms(1) have "set qs = set ps" by (rule mset_eq_setD)
  ultimately have inj: "inj_on ?f (set qs)" by simp
  have "sort_key ?f qs = sort_key ?f ps"
    using assms(1) inj by (intro sort_key_inj_key_eq) (simp_all add: sorted_sort_key)
  then show ?thesis by (simp add: array_sort_citations)
qed

text \<open>
  Claim C2, as the code has it. The top papers are in descending order of citation
  count, and the sort keeps papers of equal count in their input order. For two
  orderings of the same candidates the citation counts of the top papers agree, and the
  top papers themselves agree when no two candidates have the same count.
\<close>

theorem topPapers_order_up_to_ties:
  assumes "mset qs = mset ps"
  shows "sorted_wrt (\<ge>) (map citationCount (topPapers ps))
       \<and> (\<forall>c. filter (\<lambda>p. citationCount p = c) (array_sort byCitationsDesc ps) =
               filter (\<lambda>p. citationCount p = c) ps)
       \<and> map citationCount (topPapers qs) = map citationCount (topPapers ps)
       \<and> (distinct (map citationCount ps) \<longrightarrow> topPapers qs = topPapers ps)"
proof (intro conjI impI allI)
  have "sorted_wrt (\<ge>) (take 10 (map citationCount (array_sort byCitationsDesc ps)))"
    using array_sort_descending by (rule sorted_wrt_take)
  then show "sorted_wrt (\<ge>) (map citationCount (topPapers ps))"
    by (simp add: topPapers_def take_map)
next
  fix c
  show "filter (\<lambda>p. citationCount p = c) (array_sort byCitationsDesc ps) =
        filter (\<lambda>p. citationCount p = c) ps"
    by (rule array_sort_stable)
next
  from array_sort_counts_permutation[OF assms]
  have "take 10 (map citationCount (array_sort byCitationsDesc qs)) =
        take 10 (map citationCount (array_sort byCitationsDesc ps))"
    by (rule arg_cong)
  then show "map citationCount (topPapers qs) = map citationCount (topPapers ps)"
    by (simp add: topPapers_def take_map)
next
  assume "distinct (map citationCount ps)"
  with assms have "array_sort byCitationsDesc qs = array_sort byCitationsDesc ps"
    by (rule array_sort_permutation_distinct)
  then show "topPapers qs = topPapers ps"
    by (simp add: topPapers_def)
qed

text \<open>
  The claim as worded fails on a tie: two papers with 7 citations each keep the order
  they came in, so the paper with the larger identifier can rank first, and the two
  orderings of the same set rank differently.
\<close>

theorem topPapers_tie_counterexample:
  "topPapers [paperB, paperA] = [paperB, paperA]
   \<and> topPapers [paperA, paperB] = [paperA, paperB]
   \<and> topPapers [paperB, paperA] \<noteq> topPapers [paperA, paperB]"
proof -
  have ne: "paperB \<noteq> paperA"
  proof
    assume "paperB = paperA"
    then have "arxivId paperB = arxivId paperA" by simp
    then show False by (simp add: paperA_def paperB_def paper_with_def utf16_def)
  qed
  have a: "topPapers [paperB, paperA] = [paperB, paperA]"
    by (simp add: topPapers_def array_sort_def byCitationsDesc_def paperA_def paperB_def
        paper_with_def)
  have b: "topPapers [paperA, paperB] = [paperA, paperB]"
    by (simp add: topPapers_def array_sort_def byCitationsDesc_def paperA_def paperB_def
        paper_with_def)
  from ne a b show ?thesis by simp
qed

theorem topPapers_order_up_to_ties_witness:
  "mset [paperC, paperA] = mset [paperA, paperC]
   \<and> distinct (map citationCount [paperA, paperC])
   \<and> topPapers [paperC, paperA] = topPapers [paperA, paperC]
   \<and> topPapers [paperA, paperC] = [paperC, paperA]"
proof -
  have m: "mset [paperC, paperA] = mset [paperA, paperC]" by (simp add: add_mset_commute)
  have d: "distinct (map citationCount [paperA, paperC])"
    by (simp add: paperA_def paperC_def paper_with_def)
  from topPapers_order_up_to_ties[OF m] d
  have e: "topPapers [paperC, paperA] = topPapers [paperA, paperC]" by blast
  have v: "topPapers [paperA, paperC] = [paperC, paperA]"
    by (simp add: topPapers_def array_sort_def byCitationsDesc_def paperA_def paperC_def
        paper_with_def)
  from m d e v show ?thesis by blast
qed

section \<open>Properties of the daily selection\<close>

lemma length_topPapers: "length (topPapers ps) = min (length ps) 10"
proof -
  have "length (array_sort byCitationsDesc ps) = length ps"
    by (simp add: array_sort_citations)
  then show ?thesis by (simp add: topPapers_def min.commute)
qed

lemma random_index_in_range:
  fixes r :: rat
  assumes "0 \<le> r" and "r < 1" and "0 < n"
  shows "0 \<le> \<lfloor>r * of_nat n\<rfloor> \<and> \<lfloor>r * of_nat n\<rfloor> < int n"
proof
  from assms(1) have "0 \<le> r * of_nat n" by simp
  then show "0 \<le> \<lfloor>r * of_nat n\<rfloor>" by simp
next
  from assms(2,3) have "r * of_nat n < 1 * of_nat n"
    by (intro mult_strict_right_mono) simp_all
  then have "r * of_nat n < of_int (int n)" by simp
  then show "\<lfloor>r * of_nat n\<rfloor> < int n" by (simp only: floor_less_iff)
qed

lemma array_get_empty: "array_get [] i = Undefined"
  by (simp add: array_get_def)

lemma ranked_rows_props:
  "length (ranked_rows d category ps) = length ps
   \<and> map rank_in_day (ranked_rows d category ps) = [1..<length ps + 1]
   \<and> map fs_paper (ranked_rows d category ps) = ps"
proof -
  have "map rank_in_day (ranked_rows d category ps) = map fst (enumerate 1 ps)"
    by (simp add: ranked_rows_def comp_def case_prod_unfold)
  moreover have "map fs_paper (ranked_rows d category ps) = map snd (enumerate 1 ps)"
    by (simp add: ranked_rows_def comp_def case_prod_unfold)
  ultimately show ?thesis by (simp add: ranked_rows_def)
qed

lemma selectDailyPaper_hit:
  assumes "store s (d, category) = Some sel"
  shows "selectDailyPaper env d category s = (Inr (Defined (chosen sel)), s)"
  using assms by (simp add: selectDailyPaper_def getCachedPaper_def)

lemma selectDailyPaper_miss:
  assumes "getCachedPaper s d category = None"
    and "fetchPapersFromDateRanges env (getLast10YearsDateRanges d) category = Inr fetched"
    and "enrichWithCitations env fetched = Inr candidates"
  shows "selectDailyPaper env d category s =
     (Inr (array_get (topPapers candidates)
             \<lfloor>math_random env * of_nat (length (topPapers candidates))\<rfloor>),
      cacheDailySelection d category (topPapers candidates)
        (array_get (topPapers candidates)
             \<lfloor>math_random env * of_nat (length (topPapers candidates))\<rfloor>)
        (s\<lparr>fetches := fetches s + 1\<rparr>))"
  using assms by (simp add: selectDailyPaper_def Let_def)

lemma cacheDailySelection_chosen:
  "getCachedPaper (cacheDailySelection d category ps (Defined p) s) d category = Some p"
  by (simp add: cacheDailySelection_def getCachedPaper_def)

lemma selectDailyPaper_returns_cached:
  assumes "selectDailyPaper env d category s = (Inr (Defined p), s')"
  shows "getCachedPaper s' d category = Some p"
proof (cases "getCachedPaper s d category")
  case (Some cached)
  with assms show ?thesis by (simp add: selectDailyPaper_def)
next
  case None
  show ?thesis
  proof (cases "fetchPapersFromDateRanges env (getLast10YearsDateRanges d) category")
    case (Inl err)
    with None assms show ?thesis by (simp add: selectDailyPaper_def Let_def)
  next
    case (Inr fetched)
    show ?thesis
    proof (cases "enrichWithCitations env fetched")
      case (Inl err)
      with None Inr assms show ?thesis by (simp add: selectDailyPaper_def Let_def)
    next
      case enr: (Inr candidates)
      from selectDailyPaper_miss[OF None Inr enr] assms
      have "s' = cacheDailySelection d category (topPapers candidates) (Defined p)
          (s\<lparr>fetches := fetches s + 1\<rparr>)"
        by simp
      then show ?thesis by (simp add: cacheDailySelection_chosen)
    qed
  qed
qed

text \<open>
  Claim C1. When a selection is stored for (d, category), \<open>selectDailyPaper\<close> returns
  its chosen paper and leaves the state as it is: the store, the fetch counter and the
  write counter. So when a call has returned a paper, a second call for the same key,
  whatever the providers and the random draw then are, returns the same paper from the
  state the first call left, and leaves that state unchanged.
\<close>

theorem selectDailyPaper_idempotent:
  "(store s (d, category) = Some sel \<longrightarrow>
      selectDailyPaper env d category s = (Inr (Defined (chosen sel)), s))
   \<and> (selectDailyPaper env d category s = (Inr (Defined p), s') \<longrightarrow>
      selectDailyPaper env' d category s' = (Inr (Defined p), s'))"
proof (intro conjI impI)
  assume "store s (d, category) = Some sel"
  then show "selectDailyPaper env d category s = (Inr (Defined (chosen sel)), s)"
    by (rule selectDailyPaper_hit)
next
  assume "selectDailyPaper env d category s = (Inr (Defined p), s')"
  then have "getCachedPaper s' d category = Some p" by (rule selectDailyPaper_returns_cached)
  then show "selectDailyPaper env' d category s' = (Inr (Defined p), s')"
    by (simp add: selectDailyPaper_def)
qed

lemma two_papers_first_call:
  "fst (selectDailyPaper two_papers_env june_12_2024 None empty_state) = Inr (Defined paperA)
   \<and> fetches (snd (selectDailyPaper two_papers_env june_12_2024 None empty_state)) = 1
   \<and> writes (snd (selectDailyPaper two_papers_env june_12_2024 None empty_state)) = 1
   \<and> map fs_paper (shortlist_of (snd (selectDailyPaper two_papers_env june_12_2024 None empty_state))
        june_12_2024 None) = [paperC, paperA]
   \<and> map rank_in_day (shortlist_of (snd (selectDailyPaper two_papers_env june_12_2024 None empty_state))
        june_12_2024 None) = [1, 2]"
proof -
  have c: "getCachedPaper empty_state june_12_2024 None = None"
    by (simp add: getCachedPaper_def empty_state_def)
  have f: "fetchPapersFromDateRanges two_papers_env (getLast10YearsDateRanges june_12_2024) None
      = Inr [paperA, paperC]"
    by (simp add: two_papers_env_def)
  have e: "enrichWithCitations two_papers_env [paperA, paperC] = Inr [paperA, paperC]"
    by (simp add: two_papers_env_def)
  have t: "topPapers [paperA, paperC] = [paperC, paperA]"
    by (simp add: topPapers_def array_sort_def byCitationsDesc_def paperA_def paperC_def
        paper_with_def)
  have r: "math_random two_papers_env = 1 / 2" by (simp add: two_papers_env_def)
  have g: "array_get [paperC, paperA] \<lfloor>(1 / 2 :: rat) * of_nat (length [paperC, paperA])\<rfloor>
      = Defined paperA"
    by (simp add: array_get_def)
  show ?thesis
    unfolding selectDailyPaper_miss[OF c f e] t r g
    by (simp add: cacheDailySelection_def shortlist_of_def ranked_rows_def empty_state_def
          enumerate_eq_zip upt_conv_Cons)
qed

theorem selectDailyPaper_idempotent_witness:
  "fst (selectDailyPaper two_papers_env june_12_2024 None empty_state) = Inr (Defined paperA)
   \<and> fetches (snd (selectDailyPaper two_papers_env june_12_2024 None empty_state)) = 1
   \<and> selectDailyPaper failing_env june_12_2024 None
        (snd (selectDailyPaper two_papers_env june_12_2024 None empty_state))
      = (Inr (Defined paperA), snd (selectDailyPaper two_papers_env june_12_2024 None empty_state))"
proof -
  let ?first = "selectDailyPaper two_papers_env june_12_2024 None empty_state"
  from two_papers_first_call have a: "fst ?first = Inr (Defined paperA)"
    and b: "fetches (snd ?first) = 1" by blast+
  from a have "?first = (Inr (Defined paperA), snd ?first)" by (simp add: prod_eq_iff)
  with selectDailyPaper_idempotent [of empty_state june_12_2024 None _ two_papers_env
      paperA "snd ?first" failing_env]
  have "selectDailyPaper failing_env june_12_2024 None (snd ?first)
      = (Inr (Defined paperA), snd ?first)"
    by blast
  with a b show ?thesis by blast
qed

text \<open>
  Claim C3. On a cache miss with providers that answer and a draw in \<open>[0, 1)\<close>, the
  shortlist persisted for the key has \<open>min K 10\<close> rows for \<open>K\<close> candidates (one per
  identifier), their ranks are 1, 2, ..., \<open>min K 10\<close> in order, and their papers are the
  top papers.
\<close>

theorem shortlist_cap_and_dense_ranks:
  assumes "getCachedPaper s d category = None"
    and "fetchPapersFromDateRanges env (getLast10YearsDateRanges d) category = Inr fetched"
    and "enrichWithCitations env fetched = Inr candidates"
    and "distinct (map arxivId candidates)"
    and "0 \<le> math_random env" and "math_random env < 1"
  shows "length (shortlist_of (snd (selectDailyPaper env d category s)) d category)
           = min (length candidates) 10
       \<and> map rank_in_day (shortlist_of (snd (selectDailyPaper env d category s)) d category)
           = [1..<min (length candidates) 10 + 1]
       \<and> map fs_paper (shortlist_of (snd (selectDailyPaper env d category s)) d category)
           = topPapers candidates"
proof -
  let ?top = "topPapers candidates"
  let ?sel = "array_get ?top \<lfloor>math_random env * of_nat (length ?top)\<rfloor>"
  let ?s1 = "s\<lparr>fetches := fetches s + 1\<rparr>"
  have run: "snd (selectDailyPaper env d category s) = cacheDailySelection d category ?top ?sel ?s1"
    by (simp add: selectDailyPaper_miss[OF assms(1,2,3)])
  from assms(1) have none: "store s (d, category) = None" by (simp add: getCachedPaper_def)
  show ?thesis
  proof (cases "candidates = []")
    case True
    then have "?top = []" by (simp add: topPapers_def array_sort_def)
    then have "cacheDailySelection d category ?top ?sel ?s1 = ?s1\<lparr>writes := writes ?s1 + 1\<rparr>"
      by (simp add: cacheDailySelection_def array_get_empty)
    with none True \<open>?top = []\<close> show ?thesis
      unfolding run by (simp add: shortlist_of_def)
  next
    case False
    then have "0 < length ?top" by (simp add: length_topPapers)
    from random_index_in_range[OF assms(5,6) this]
    obtain p where "?sel = Defined p" by (auto simp: array_get_def)
    then have "shortlist_of (cacheDailySelection d category ?top ?sel ?s1) d category
        = ranked_rows d category ?top"
      by (simp add: cacheDailySelection_def shortlist_of_def)
    then show ?thesis
      unfolding run using ranked_rows_props[of d category ?top]
      by (simp add: length_topPapers)
  qed
qed

theorem shortlist_cap_and_dense_ranks_witness:
  "getCachedPaper empty_state june_12_2024 None = None
   \<and> distinct (map arxivId [paperA, paperC])
   \<and> length (shortlist_of (snd (selectDailyPaper two_papers_env june_12_2024 None empty_state))
        june_12_2024 None) = 2
   \<and> map rank_in_day (shortlist_of (snd (selectDailyPaper two_papers_env june_12_2024 None empty_state))
        june_12_2024 None) = [1, 2]"
proof -
  have c: "getCachedPaper empty_state june_12_2024 None = None"
    by (simp add: getCachedPaper_def empty_state_def)
  have f: "fetchPapersFromDateRanges two_papers_env (getLast10YearsDateRanges june_12_2024) None
      = Inr [paperA, paperC]"
    by (simp add: two_papers_env_def)
  have e: "enrichWithCitations two_papers_env [paperA, paperC] = Inr [paperA, paperC]"
    by (simp add: two_papers_env_def)
  have d: "distinct (map arxivId [paperA, paperC])"
    by (simp add: paperA_def paperC_def paper_with_def utf16_def)
  have r0: "0 \<le> math_random two_papers_env" and r1: "math_random two_papers_env < 1"
    by (simp_all add: two_papers_env_def)
  from shortlist_cap_and_dense_ranks[OF c f e d r0 r1] c d
  show ?thesis by (simp add: upt_conv_Cons)
qed

text \<open>
  Claim C6 against the code: with no candidate at all, \<open>selectDailyPaper\<close> resolves with
  \<open>undefined\<close>, the value of \<open>topPapers[0]\<close> on an empty array, where its signature
  promises a \<open>Paper\<close>; nothing is stored for the key.
\<close>

theorem selectDailyPaper_no_candidates_undefined:
  "selectDailyPaper no_papers_env june_12_2024 None empty_state
     = (Inr Undefined, empty_state\<lparr>fetches := 1, writes := 1\<rparr>)"
proof -
  have c: "getCachedPaper empty_state june_12_2024 None = None"
    by (simp add: getCachedPaper_def empty_state_def)
  have f: "fetchPapersFromDateRanges no_papers_env (getLast10YearsDateRanges june_12_2024) None
      = Inr []"
    by (simp add: no_papers_env_def)
  have e: "enrichWithCitations no_papers_env [] = Inr []"
    by (simp add: no_papers_env_def)
  have t: "topPapers [] = []" by (simp add: topPapers_def array_sort_def)
  show ?thesis
    unfolding selectDailyPaper_miss[OF c f e] t
    by (simp add: array_get_empty cacheDailySelection_def empty_state_def)
qed

end
